theory Spec2Isabelle
  imports Main
begin

section \<open>Paths and names\<close>

text \<open>
  The linking code of \<^verbatim>\<open>PnpmLinkManager.ts\<close> computes every location with Node's
  \<^verbatim>\<open>path.join\<close>.  On the segments it is given here (a folder in normal form followed by
  plain names) \<^verbatim>\<open>path.join\<close> on POSIX puts one separator between neighbours, which is
  what \<open>path_join\<close> does; segments that would need normalising (\<^verbatim>\<open>..\<close>, doubled or
  trailing separators) are outside the model.
\<close>

definition path_sep :: char where
  "path_sep = CHR ''/''"

fun path_join :: "string list \<Rightarrow> string" where
  "path_join [] = ''.''"
| "path_join [x] = x"
| "path_join (x # y # ys) = x @ path_sep # path_join (y # ys)"

text \<open>
  \<^verbatim>\<open>strict-uri-encode\<close> is \<^verbatim>\<open>encodeURIComponent\<close> followed by the escaping of
  \<^verbatim>\<open>! ' ( ) *\<close>: letters, digits and \<^verbatim>\<open>- _ . ~\<close> stay, every other byte becomes
  \<^verbatim>\<open>%XX\<close> in upper-case hexadecimal.  A \<open>string\<close> is read as the UTF-8 bytes of the
  JavaScript string.
\<close>

definition unreserved :: "char \<Rightarrow> bool" where
  "unreserved c \<longleftrightarrow>
     c \<in> set ''abcdefghijklmnopqrstuvwxyzABCDEFGHIJKLMNOPQRSTUVWXYZ0123456789-_.~''"

definition hexDigit :: "nat \<Rightarrow> char" where
  "hexDigit n = ''0123456789ABCDEF'' ! (n mod 16)"

definition percentEncode :: "char \<Rightarrow> string" where
  "percentEncode c =
     (if unreserved c then [c]
      else [CHR ''%'', hexDigit (of_char c div 16), hexDigit (of_char c mod 16)])"

definition uriEncode :: "string \<Rightarrow> string" where
  "uriEncode s = concat (map percentEncode s)"

text \<open>
  Modelled from the spec: \<^verbatim>\<open>Utilities.parseScopedPackageName\<close> is not among the sources.
  A name ``may include a scope prefix'' (\<^verbatim>\<open>@scope/name\<close>); the function splits it there
  and the linking code takes the \<^verbatim>\<open>name\<close> part (``project1'' in the source's example).
\<close>

definition parseScopedPackageName_name :: "string \<Rightarrow> string" where
  "parseScopedPackageName_name scopedName =
     (if take 1 scopedName = ''@'' \<and> CHR ''/'' \<in> set scopedName
      then tl (dropWhile (\<lambda>c. c \<noteq> CHR ''/'') scopedName)
      else scopedName)"

text \<open>
  Modelled from the spec: \<^verbatim>\<open>RushConstants\<close> is not among the sources.  The spec has
  each node occupy a \<^verbatim>\<open>node_modules/<name>\<close> entry; the other values are the ones in
  the example paths of the comments of \<^verbatim>\<open>PnpmLinkManager.ts\<close>
  (\<^verbatim>\<open>common/temp/projects/project1\<close>, \<^verbatim>\<open>common/temp/node_modules/@rush-temp/project1\<close>).
\<close>

definition rushTempProjectsFolderName :: string where
  "rushTempProjectsFolderName = ''projects''"

definition nodeModulesFolderName :: string where
  "nodeModulesFolderName = ''node_modules''"

definition rushTempNpmScope :: string where
  "rushTempNpmScope = ''@rush-temp''"

definition packageJsonFilename :: string where
  "packageJsonFilename = ''package.json''"

section \<open>Data model\<close>

text \<open>
  Modelled from the spec: the declarations of \<^verbatim>\<open>IPackageJson\<close>,
  \<^verbatim>\<open>RushConfigurationProject\<close>, \<^verbatim>\<open>RushConfiguration\<close> and \<^verbatim>\<open>IRushLinkJson\<close> are not
  among the sources.  They are the spec's staging manifest, project descriptor and link
  manifest, with the fields that \<^verbatim>\<open>PnpmLinkManager.ts\<close> reads.  The two dependency maps
  of a \<^verbatim>\<open>package.json\<close> are JavaScript objects, kept here as the list of their entries in
  the order \<^verbatim>\<open>Object.keys\<close> enumerates them (the keys of an object are distinct);
  \<open>None\<close> is a map that the file does not have.
\<close>

record IPackageJson =
  name :: string
  version :: string
  dependencies :: "(string \<times> string) list option"
  rushDependencies :: "(string \<times> string) list option"

definition Object_keys :: "(string \<times> string) list option \<Rightarrow> string list" where
  "Object_keys obj = (case obj of None \<Rightarrow> [] | Some kvs \<Rightarrow> map fst kvs)"

record RushConfigurationProject =
  packageName :: string
  packageJson :: IPackageJson
  projectFolder :: string
  tempProjectName :: string

record RushConfiguration =
  projects :: "RushConfigurationProject list"
  commonTempFolder :: string
  rushLinkJsonFilename :: string

text \<open>
  Modelled from the spec: \<^verbatim>\<open>RushConfiguration.getProjectByName\<close> is not among the sources.
  An internal dependency name ``matches a known local project'' when a project of the
  configuration carries that name.
\<close>

definition getProjectByName :: "RushConfiguration \<Rightarrow> string \<Rightarrow> RushConfigurationProject option" where
  "getProjectByName cfg projectName = find (\<lambda>p. packageName p = projectName) (projects cfg)"

text \<open>
  The link manifest, \<^verbatim>\<open>{ localLinks: { project: [dependency, ...] } }\<close>.  The map
  holds the object's own properties.  \<^verbatim>\<open>localLinks\<close> is created as the plain object
  \<^verbatim>\<open>{}\<close>, so reading a name it does not have itself gives what \<^verbatim>\<open>Object.prototype\<close>
  has under that name: for the names below a function (for \<^verbatim>\<open>__proto__\<close> the prototype
  itself), which is truthy and has no \<^verbatim>\<open>push\<close>.
\<close>

record IRushLinkJson =
  localLinks :: "string \<rightharpoonup> string list"

definition objectPrototypeProperties :: "string list" where
  "objectPrototypeProperties =
     [''constructor'', ''__proto__'', ''hasOwnProperty'', ''isPrototypeOf'',
      ''propertyIsEnumerable'', ''toLocaleString'', ''toString'', ''valueOf'',
      ''__defineGetter__'', ''__defineSetter__'', ''__lookupGetter__'', ''__lookupSetter__'']"

text \<open>
  Modelled from the spec: \<^verbatim>\<open>BasePackage\<close> is not among the sources.  It is the spec's
  DependencyNode: name, version (undefined when not recorded), the folder the node stands
  for, the optional symlink target, the optional copy of the manifest, and the ordered
  children.
\<close>

datatype BasePackage =
  BasePackage
    (name_pkg: string)
    (version_pkg: "string option")
    (folderPath: string)
    (symlinkTargetFolderPath: "string option")
    (packageJson_pkg: "IPackageJson option")
    (children: "BasePackage list")

text \<open>The two field assignments the linking code performs on a node.\<close>

definition set_symlinkTargetFolderPath :: "string \<Rightarrow> BasePackage \<Rightarrow> BasePackage" where
  "set_symlinkTargetFolderPath target p =
     BasePackage (name_pkg p) (version_pkg p) (folderPath p) (Some target) (packageJson_pkg p)
       (children p)"

definition children_push :: "BasePackage \<Rightarrow> BasePackage \<Rightarrow> BasePackage" where
  "children_push p child =
     BasePackage (name_pkg p) (version_pkg p) (folderPath p) (symlinkTargetFolderPath p)
       (packageJson_pkg p) (children p @ [child])"

text \<open>
  Every \<^verbatim>\<open>throw\<close> of the linking code, and of the parts modelled from the spec, is a
  value.  The source raises a plain \<^verbatim>\<open>Error\<close> with a message; the constructor keeps the
  message's kind and the names the message quotes.  \<open>PushIsNotAFunction\<close> is the
  \<^verbatim>\<open>TypeError\<close> of calling \<^verbatim>\<open>push\<close> on a value that has none.
\<close>

datatype error =
    JsonLoadError string
  | UndefinedPackageJson string
  | PushIsNotAFunction string
  | CannotFindDependency string string
  | CannotFindInstalledDependency string string
  | LstatNoEntry string
  | DependencyNotSymlink string string
  | ChildAlreadyExists string string
  | FilesystemConflictError string

text \<open>
  \<open>CannotFindDependency dependencyName packageName\<close> is the error the spec calls
  \<^verbatim>\<open>ConfigurationError\<close> (``Cannot find dependency ... for ... in rush configuration'');
  \<open>CannotFindInstalledDependency dependencyName pathToLocalInstallation\<close> and
  \<open>DependencyNotSymlink dependencyName pathToLocalInstallation\<close> are the two it calls
  \<^verbatim>\<open>BackendInvariantViolationError\<close>.
\<close>

text \<open>
  Modelled from the spec: \<^verbatim>\<open>BasePackage.createLinkedPackage\<close>,
  \<^verbatim>\<open>BasePackage.createVirtualTempPackage\<close> and \<^verbatim>\<open>BasePackage.addChild\<close> are not among
  the sources.  \<open>createLinkedPackage\<close> ``produces a node representing a location that
  will hold a symlink; children empty until populated by a strategy''.
  \<open>createVirtualTempPackage\<close> loads the staging manifest and makes the node of the
  installed temp package from it.  \<open>addChild\<close> ``appends to children, asserting
  child.name is not already present among existing children'', and fails with an error
  that names the parent and the duplicate.
\<close>

definition createLinkedPackage :: "string \<Rightarrow> string option \<Rightarrow> string \<Rightarrow> BasePackage" where
  "createLinkedPackage n v folder = BasePackage n v folder None None []"

definition createVirtualTempPackage ::
  "(string \<rightharpoonup> IPackageJson) \<Rightarrow> string \<Rightarrow> string \<Rightarrow> error + BasePackage" where
  "createVirtualTempPackage files packageJsonFilename' installFolderName =
     (case files packageJsonFilename' of
        None \<Rightarrow> Inl (JsonLoadError packageJsonFilename')
      | Some pj \<Rightarrow>
          Inr (BasePackage (name pj) (Some (version pj)) installFolderName None (Some pj) []))"

definition addChild :: "BasePackage \<Rightarrow> BasePackage \<Rightarrow> error + BasePackage" where
  "addChild parent child =
     (if name_pkg child \<in> set (map name_pkg (children parent))
      then Inl (ChildAlreadyExists (name_pkg parent) (name_pkg child))
      else Inr (children_push parent child))"

section \<open>The file system\<close>

text \<open>
  The disk maps an absolute path in normal form to what \<^verbatim>\<open>lstat\<close> sees there: nothing,
  a directory, a symbolic link, or a regular file.  A path names its entry as it is
  written: the folders on the way to it are taken to be real folders, not links.  A
  link is kept with the absolute path it leads to in one hop (the linking code makes
  its links to the absolute paths it computes).  \<open>lstatSync\<close> reads the entry at
  the path itself.  \<open>existsSync\<close> follows links, as \<^verbatim>\<open>fs.existsSync\<close> does: a path
  exists when following the links from it, at most \<open>maxSymlinks\<close> of them (the limit
  after which the system gives up with \<^verbatim>\<open>ELOOP\<close>), ends at a directory or a file; a
  link that dangles, or that runs in a circle, does not exist.
\<close>

datatype fsnode = DirectoryNode | SymlinkNode string | FileNode

type_synonym fs = "string \<rightharpoonup> fsnode"

definition maxSymlinks :: nat where
  "maxSymlinks = 40"

primrec followLinks :: "nat \<Rightarrow> fs \<Rightarrow> string \<Rightarrow> bool" where
  "followLinks 0 s p =
     (case s p of None \<Rightarrow> False | Some (SymlinkNode t) \<Rightarrow> False | Some _ \<Rightarrow> True)"
| "followLinks (Suc n) s p =
     (case s p of None \<Rightarrow> False | Some (SymlinkNode t) \<Rightarrow> followLinks n s t | Some _ \<Rightarrow> True)"

definition existsSync :: "fs \<Rightarrow> string \<Rightarrow> bool" where
  "existsSync s p \<longleftrightarrow> followLinks maxSymlinks s p"

definition lstatSync :: "fs \<Rightarrow> string \<Rightarrow> fsnode option" where
  "lstatSync s p = s p"

fun isSymbolicLink :: "fsnode \<Rightarrow> bool" where
  "isSymbolicLink (SymlinkNode _) = True"
| "isSymbolicLink _ = False"

section \<open>Building the tree of one project\<close>

text \<open>The debugging flag of \<^verbatim>\<open>PnpmLinkManager.ts\<close>.\<close>

definition DEBUG :: bool where
  "DEBUG = False"

text \<open>
  The first loop of \<^verbatim>\<open>_linkProject\<close>, over \<^verbatim>\<open>Object.keys(rushDependencies || {})\<close>: a
  matched name is appended to the project's entry of the link manifest (created when
  the lookup gives nothing) and a node linked to the matched project's folder is pushed
  onto the children, without \<open>addChild\<close>; an unmatched name throws.  When the project is
  named like a property of \<^verbatim>\<open>Object.prototype\<close> and has no entry of its own yet, the
  lookup gives the inherited value and \<^verbatim>\<open>localLinks.push\<close> throws a \<^verbatim>\<open>TypeError\<close>.
\<close>

fun linkRushDependencies ::
  "RushConfiguration \<Rightarrow> RushConfigurationProject \<Rightarrow> string list \<Rightarrow> BasePackage \<Rightarrow>
   IRushLinkJson \<Rightarrow> error + BasePackage \<times> IRushLinkJson" where
  "linkRushDependencies cfg project [] localPackage rushLinkJson =
     Inr (localPackage, rushLinkJson)"
| "linkRushDependencies cfg project (dependencyName # rest) localPackage rushLinkJson =
     (case getProjectByName cfg dependencyName of
        Some matchedRushPackage \<Rightarrow>
          (if localLinks rushLinkJson (name_pkg localPackage) = None \<and>
              name_pkg localPackage \<in> set objectPrototypeProperties
           then Inl (PushIsNotAFunction (name_pkg localPackage))
           else
             (let matchedVersion = version (packageJson matchedRushPackage);
                  links = (case localLinks rushLinkJson (name_pkg localPackage) of
                             None \<Rightarrow> [] | Some l \<Rightarrow> l);
                  rushLinkJson' = rushLinkJson
                    \<lparr>localLinks := (localLinks rushLinkJson)
                       (name_pkg localPackage \<mapsto> links @ [dependencyName])\<rparr>;
                  newLocalFolderPath =
                    path_join [folderPath localPackage, ''node_modules'', dependencyName];
                  newLocalPackage =
                    set_symlinkTargetFolderPath (projectFolder matchedRushPackage)
                      (createLinkedPackage dependencyName (Some matchedVersion)
                         newLocalFolderPath)
              in linkRushDependencies cfg project rest
                   (children_push localPackage newLocalPackage) rushLinkJson'))
      | None \<Rightarrow> Inl (CannotFindDependency dependencyName (packageName project)))"

text \<open>
  The second loop, over \<^verbatim>\<open>Object.keys(dependencies || {})\<close>: the place where the
  backend must have put a symlink is checked, the version is read only under \<open>DEBUG\<close>,
  and the node linked to that place is added with \<open>addChild\<close>.
\<close>

fun linkDependencies ::
  "(string \<rightharpoonup> IPackageJson) \<Rightarrow> fs \<Rightarrow> string \<Rightarrow> string list \<Rightarrow> BasePackage \<Rightarrow>
   error + BasePackage" where
  "linkDependencies files s pathToLocalInstallation [] localPackage = Inr localPackage"
| "linkDependencies files s pathToLocalInstallation (dependencyName # rest) localPackage =
     (let dependencyLocalInstallationSymlink =
            path_join [pathToLocalInstallation, dependencyName]
      in if \<not> existsSync s dependencyLocalInstallationSymlink
         then Inl (CannotFindInstalledDependency dependencyName pathToLocalInstallation)
         else
           (case lstatSync s dependencyLocalInstallationSymlink of
              None \<Rightarrow> Inl (LstatNoEntry dependencyLocalInstallationSymlink)
            | Some stats \<Rightarrow>
                if \<not> isSymbolicLink stats
                then Inl (DependencyNotSymlink dependencyName pathToLocalInstallation)
                else
                  (let newLocalFolderPath =
                         path_join [folderPath localPackage, ''node_modules'', dependencyName]
                   in case (if DEBUG
                            then (case files (path_join [dependencyLocalInstallationSymlink,
                                                         packageJsonFilename]) of
                                    None \<Rightarrow> Inl (JsonLoadError
                                      (path_join [dependencyLocalInstallationSymlink,
                                                  packageJsonFilename]))
                                  | Some packageJsonForDependency \<Rightarrow>
                                      Inr (Some (version packageJsonForDependency)))
                            else Inr None) of
                        Inl e \<Rightarrow> Inl e
                      | Inr version' \<Rightarrow>
                          (let newLocalPackage =
                                 set_symlinkTargetFolderPath dependencyLocalInstallationSymlink
                                   (createLinkedPackage dependencyName version' newLocalFolderPath)
                           in case addChild localPackage newLocalPackage of
                                Inl e \<Rightarrow> Inl e
                              | Inr localPackage' \<Rightarrow>
                                  linkDependencies files s pathToLocalInstallation rest
                                    localPackage'))))"

text \<open>The locations \<^verbatim>\<open>_linkProject\<close> derives from the configuration and the project.\<close>

definition unscopedTempProjectName :: "RushConfigurationProject \<Rightarrow> string" where
  "unscopedTempProjectName project = parseScopedPackageName_name (tempProjectName project)"

definition extractedFolder :: "RushConfiguration \<Rightarrow> RushConfigurationProject \<Rightarrow> string" where
  "extractedFolder cfg project =
     path_join [commonTempFolder cfg, rushTempProjectsFolderName, unscopedTempProjectName project]"

definition tempPackageJsonFilename :: "RushConfiguration \<Rightarrow> RushConfigurationProject \<Rightarrow> string" where
  "tempPackageJsonFilename cfg project = path_join [extractedFolder cfg project, ''package.json'']"

definition installFolderName :: "RushConfiguration \<Rightarrow> RushConfigurationProject \<Rightarrow> string" where
  "installFolderName cfg project =
     path_join [commonTempFolder cfg, nodeModulesFolderName, rushTempNpmScope,
                unscopedTempProjectName project]"

definition pathToTgzFile :: "RushConfiguration \<Rightarrow> RushConfigurationProject \<Rightarrow> string" where
  "pathToTgzFile cfg project =
     path_join [commonTempFolder cfg, ''projects'', unscopedTempProjectName project @ ''.tgz'']"

definition escapedPathToTgzFile :: "RushConfiguration \<Rightarrow> RushConfigurationProject \<Rightarrow> string" where
  "escapedPathToTgzFile cfg project =
     uriEncode (map (\<lambda>c. if c = path_sep then CHR ''/'' else c) (pathToTgzFile cfg project))"

definition pathToLocalInstallation :: "RushConfiguration \<Rightarrow> RushConfigurationProject \<Rightarrow> string" where
  "pathToLocalInstallation cfg project =
     path_join [commonTempFolder cfg, nodeModulesFolderName, ''.local'',
                escapedPathToTgzFile cfg project, nodeModulesFolderName]"

text \<open>
  Lines 57 to 190 of \<^verbatim>\<open>_linkProject\<close>: the staging manifest is loaded, the root node of
  the project is made and the two loops fill it.  Nothing is written to the disk yet.
\<close>

definition buildLocalPackage ::
  "RushConfiguration \<Rightarrow> (string \<rightharpoonup> IPackageJson) \<Rightarrow> RushConfigurationProject \<Rightarrow>
   IRushLinkJson \<Rightarrow> fs \<Rightarrow> error + BasePackage \<times> IRushLinkJson" where
  "buildLocalPackage cfg files project rushLinkJson s =
     (case createVirtualTempPackage files (tempPackageJsonFilename cfg project)
             (installFolderName cfg project) of
        Inl e \<Rightarrow> Inl e
      | Inr commonPackage \<Rightarrow>
          (let localPackage =
                 createLinkedPackage (name (packageJson project)) (version_pkg commonPackage)
                   (projectFolder project)
           in case packageJson_pkg commonPackage of
                None \<Rightarrow> Inl (UndefinedPackageJson (tempPackageJsonFilename cfg project))
              | Some commonPackageJson \<Rightarrow>
                  (case linkRushDependencies cfg project
                          (Object_keys (rushDependencies commonPackageJson))
                          localPackage rushLinkJson of
                     Inl e \<Rightarrow> Inl e
                   | Inr (localPackage', rushLinkJson') \<Rightarrow>
                       (case linkDependencies files s (pathToLocalInstallation cfg project)
                               (Object_keys (dependencies commonPackageJson)) localPackage' of
                          Inl e \<Rightarrow> Inl e
                        | Inr localPackage'' \<Rightarrow> Inr (localPackage'', rushLinkJson')))))"

section \<open>Projecting a tree onto the disk\<close>

text \<open>
  Modelled from the spec: \<^verbatim>\<open>BaseLinkManager._createSymlink\<close> and
  \<^verbatim>\<open>BaseLinkManager._createSymlinksForTopLevelProject\<close> are not among the sources; they
  are the spec's Filesystem Projection Engine.  \<open>createSymlink\<close> is its
  \<^verbatim>\<open>ensureSymlink(targetPath, linkPath, kind)\<close>: a link already at \<open>linkPath\<close> is removed
  and made anew, real content there is a \<^verbatim>\<open>FilesystemConflictError\<close> and nothing is
  deleted; both kinds of link behave alike.  A node with a symlink target becomes that
  link and its children are not walked; a node without one becomes a real folder (the
  root, a project's own folder, exists already and is not made) whose children are
  materialised under its \<^verbatim>\<open>node_modules\<close> folder, which is created when it is not
  there.
\<close>

datatype SymlinkKind = File | Directory

definition createSymlink :: "string \<Rightarrow> string \<Rightarrow> SymlinkKind \<Rightarrow> fs \<Rightarrow> error option \<times> fs" where
  "createSymlink targetPath linkPath kind s =
     (case s linkPath of
        None \<Rightarrow> (None, s(linkPath \<mapsto> SymlinkNode targetPath))
      | Some (SymlinkNode _) \<Rightarrow> (None, s(linkPath \<mapsto> SymlinkNode targetPath))
      | Some _ \<Rightarrow> (Some (FilesystemConflictError linkPath), s))"

definition createFolder :: "string \<Rightarrow> fs \<Rightarrow> fs" where
  "createFolder folder s = (case s folder of None \<Rightarrow> s(folder \<mapsto> DirectoryNode) | Some _ \<Rightarrow> s)"

fun createSymlinksForDependencies :: "BasePackage \<Rightarrow> fs \<Rightarrow> error option \<times> fs"
  and createSymlinksForChildren :: "BasePackage list \<Rightarrow> fs \<Rightarrow> error option \<times> fs" where
  "createSymlinksForDependencies (BasePackage n v folder target pj cs) s =
     (case target of
        Some symlinkTarget \<Rightarrow> createSymlink symlinkTarget folder Directory s
      | None \<Rightarrow>
          (if cs = [] then (None, createFolder folder s)
           else createSymlinksForChildren cs
                  (createFolder (path_join [folder, ''node_modules'']) (createFolder folder s))))"
| "createSymlinksForChildren [] s = (None, s)"
| "createSymlinksForChildren (child # rest) s =
     (case createSymlinksForDependencies child s of
        (Some e, s') \<Rightarrow> (Some e, s')
      | (None, s') \<Rightarrow> createSymlinksForChildren rest s')"

definition createSymlinksForTopLevelProject :: "BasePackage \<Rightarrow> fs \<Rightarrow> error option \<times> fs" where
  "createSymlinksForTopLevelProject localPackage s =
     (if children localPackage = [] then (None, s)
      else createSymlinksForChildren (children localPackage)
             (createFolder (path_join [folderPath localPackage, ''node_modules'']) s))"

section \<open>Linking one project, and all of them\<close>

text \<open>
  \<^verbatim>\<open>_linkProject\<close>: the tree is built, projected, and the shared \<^verbatim>\<open>.bin\<close> folder is
  linked into the project when it exists.  The result carries the link manifest as the
  project leaves it; the file system is returned also when the project fails, with
  whatever had been written by then.
\<close>

definition linkProject ::
  "RushConfiguration \<Rightarrow> (string \<rightharpoonup> IPackageJson) \<Rightarrow> RushConfigurationProject \<Rightarrow>
   IRushLinkJson \<Rightarrow> fs \<Rightarrow> (error + IRushLinkJson) \<times> fs" where
  "linkProject cfg files project rushLinkJson s =
     (case buildLocalPackage cfg files project rushLinkJson s of
        Inl e \<Rightarrow> (Inl e, s)
      | Inr (localPackage, rushLinkJson') \<Rightarrow>
          (case createSymlinksForTopLevelProject localPackage s of
             (Some e, s') \<Rightarrow> (Inl e, s')
           | (None, s') \<Rightarrow>
               (let commonBinFolder = path_join [commonTempFolder cfg, ''node_modules'', ''.bin''];
                    projectBinFolder =
                      path_join [folderPath localPackage, ''node_modules'', ''.bin'']
                in if existsSync s' commonBinFolder
                   then (case createSymlink commonBinFolder projectBinFolder Directory s' of
                           (Some e, s'') \<Rightarrow> (Inl e, s'')
                         | (None, s'') \<Rightarrow> (Inr rushLinkJson', s''))
                   else (Inr rushLinkJson', s'))))"

text \<open>The \<^verbatim>\<open>for\<close> loop of \<^verbatim>\<open>_linkProjects\<close>; the first project that throws ends it.\<close>

fun linkAll ::
  "RushConfiguration \<Rightarrow> (string \<rightharpoonup> IPackageJson) \<Rightarrow> RushConfigurationProject list \<Rightarrow>
   IRushLinkJson \<Rightarrow> fs \<Rightarrow> (error + IRushLinkJson) \<times> fs" where
  "linkAll cfg files [] rushLinkJson s = (Inr rushLinkJson, s)"
| "linkAll cfg files (rushProject # rest) rushLinkJson s =
     (case linkProject cfg files rushProject rushLinkJson s of
        (Inl e, s') \<Rightarrow> (Inl e, s')
      | (Inr rushLinkJson', s') \<Rightarrow> linkAll cfg files rest rushLinkJson' s')"

text \<open>
  What a run can see and change: the entries of the file system, the contents of the
  \<^verbatim>\<open>package.json\<close> files (read only), and the JSON files saved with
  \<^verbatim>\<open>JsonFile.save\<close>, latest first.  The file at a name holds what was saved there last.
  Only the signature of \<^verbatim>\<open>JsonFile.save\<close> is among the sources; a call is taken to write
  the object to the named file.  What the code prints with \<^verbatim>\<open>console.log\<close> and, under
  \<open>DEBUG\<close>, with \<^verbatim>\<open>printTree\<close> is not part of the world.
\<close>

record world =
  entries :: fs
  packageJsonFiles :: "string \<rightharpoonup> IPackageJson"
  saved :: "(string \<times> IRushLinkJson) list"

definition JsonFile_save :: "IRushLinkJson \<Rightarrow> string \<Rightarrow> world \<Rightarrow> world" where
  "JsonFile_save jsonObject jsonFilename w = w\<lparr>saved := (jsonFilename, jsonObject) # saved w\<rparr>"

definition savedFile :: "world \<Rightarrow> string \<Rightarrow> IRushLinkJson option" where
  "savedFile w jsonFilename = map_of (saved w) jsonFilename"

text \<open>
  \<^verbatim>\<open>_linkProjects\<close>: \<open>Inr ()\<close> is the resolved promise, \<open>Inl e\<close> the promise rejected
  with \<open>e\<close>.
\<close>

definition linkProjects :: "RushConfiguration \<Rightarrow> world \<Rightarrow> (error + unit) \<times> world" where
  "linkProjects cfg w =
     (case linkAll cfg (packageJsonFiles w) (projects cfg) \<lparr>localLinks = Map.empty\<rparr> (entries w) of
        (Inl e, s') \<Rightarrow> (Inl e, w\<lparr>entries := s'\<rparr>)
      | (Inr rushLinkJson, s') \<Rightarrow>
          (Inr (), JsonFile_save rushLinkJson (rushLinkJsonFilename cfg) (w\<lparr>entries := s'\<rparr>)))"

section \<open>Notions used in the statements and proofs\<close>

text \<open>
  The nodes the two loops make, the root they fill, and the entry of the link manifest
  they extend, written as closed expressions so that the loops can be characterised.
  \<open>inherited n j\<close>: the manifest \<open>j\<close> has no entry of its own for \<open>n\<close> and
  \<^verbatim>\<open>Object.prototype\<close> has a property of that name.
\<close>

definition rushChild :: "RushConfiguration \<Rightarrow> string \<Rightarrow> string \<Rightarrow> BasePackage" where
  "rushChild cfg folder d =
     BasePackage d (map_option (\<lambda>m. version (packageJson m)) (getProjectByName cfg d))
       (path_join [folder, ''node_modules'', d])
       (map_option projectFolder (getProjectByName cfg d)) None []"

definition appendLinks :: "string \<Rightarrow> string list \<Rightarrow> IRushLinkJson \<Rightarrow> IRushLinkJson" where
  "appendLinks n ds j =
     (if ds = [] then j
      else j\<lparr>localLinks := (localLinks j)
             (n \<mapsto> (case localLinks j n of None \<Rightarrow> [] | Some l \<Rightarrow> l) @ ds)\<rparr>)"

definition inherited :: "string \<Rightarrow> IRushLinkJson \<Rightarrow> bool" where
  "inherited n j \<longleftrightarrow> localLinks j n = None \<and> n \<in> set objectPrototypeProperties"

definition withChildren :: "BasePackage \<Rightarrow> BasePackage list \<Rightarrow> BasePackage" where
  "withChildren p cs =
     BasePackage (name_pkg p) (version_pkg p) (folderPath p) (symlinkTargetFolderPath p)
       (packageJson_pkg p) (children p @ cs)"

definition depChild :: "string \<Rightarrow> string \<Rightarrow> string \<Rightarrow> BasePackage" where
  "depChild pli folder d =
     BasePackage d None (path_join [folder, ''node_modules'', d]) (Some (path_join [pli, d])) None []"

definition isLink :: "fs \<Rightarrow> string \<Rightarrow> bool" where
  "isLink s p \<longleftrightarrow> (\<exists>t. s p = Some (SymlinkNode t))"

definition rkeys :: "IPackageJson \<Rightarrow> string list" where
  "rkeys pj = Object_keys (rushDependencies pj)"

definition dkeys :: "IPackageJson \<Rightarrow> string list" where
  "dkeys pj = Object_keys (dependencies pj)"

definition pname :: "RushConfigurationProject \<Rightarrow> string" where
  "pname project = name (packageJson project)"

definition entryAfter :: "string list option \<Rightarrow> string list \<Rightarrow> string list option" where
  "entryAfter old ds =
     (if ds = [] then old else Some ((case old of None \<Rightarrow> [] | Some l \<Rightarrow> l) @ ds))"

definition rootWith ::
  "RushConfiguration \<Rightarrow> RushConfigurationProject \<Rightarrow> IPackageJson \<Rightarrow> BasePackage" where
  "rootWith cfg project pj =
     BasePackage (pname project) (Some (version pj)) (projectFolder project) None None
       (map (rushChild cfg (projectFolder project)) (rkeys pj) @
        map (depChild (pathToLocalInstallation cfg project) (projectFolder project)) (dkeys pj))"

text \<open>
  One hop along a symbolic link: the target recorded at the path, when the entry there
  is a link.
\<close>

definition readlink :: "fs \<Rightarrow> string \<Rightarrow> string option" where
  "readlink s p = (case s p of Some (SymlinkNode t) \<Rightarrow> Some t | _ \<Rightarrow> None)"

text \<open>
  Where linking writes and where it reads.  Everything a project's linking writes lies
  at or under the project's \<^verbatim>\<open>node_modules\<close> folder: \<open>underNodeModules folder q\<close> says
  that the path \<open>q\<close> begins with the path of the \<^verbatim>\<open>node_modules\<close> folder of \<open>folder\<close>.  \<open>staysOutside n W s p\<close>: the
  path \<open>p\<close>, and every path reached from it by following up to \<open>n\<close> links in \<open>s\<close>,
  is outside \<open>W\<close>.  \<open>clearOfProjects cfg w\<close>: this holds, with respect to the
  \<^verbatim>\<open>node_modules\<close> folders of all projects, of the shared \<^verbatim>\<open>.bin\<close> folder and of the
  backend's entry for every ordinary dependency of every project.
\<close>

definition underNodeModules :: "string \<Rightarrow> string \<Rightarrow> bool" where
  "underNodeModules folder q \<longleftrightarrow>
     take (length (path_join [folder, ''node_modules''])) q = path_join [folder, ''node_modules'']"

definition inProjectNodeModules :: "RushConfiguration \<Rightarrow> string \<Rightarrow> bool" where
  "inProjectNodeModules cfg q \<longleftrightarrow> (\<exists>p \<in> set (projects cfg). underNodeModules (projectFolder p) q)"

primrec staysOutside :: "nat \<Rightarrow> (string \<Rightarrow> bool) \<Rightarrow> fs \<Rightarrow> string \<Rightarrow> bool" where
  "staysOutside 0 W s p = (\<not> W p)"
| "staysOutside (Suc n) W s p =
     (\<not> W p \<and> (case s p of Some (SymlinkNode t) \<Rightarrow> staysOutside n W s t | _ \<Rightarrow> True))"

definition readPath :: "RushConfiguration \<Rightarrow> (string \<rightharpoonup> IPackageJson) \<Rightarrow> string \<Rightarrow> bool" where
  "readPath cfg files r \<longleftrightarrow>
     r = path_join [commonTempFolder cfg, ''node_modules'', ''.bin''] \<or>
     (\<exists>p \<in> set (projects cfg). \<exists>pj. files (tempPackageJsonFilename cfg p) = Some pj \<and>
        (\<exists>d \<in> set (dkeys pj). r = path_join [pathToLocalInstallation cfg p, d]))"

definition clearOfProjects :: "RushConfiguration \<Rightarrow> world \<Rightarrow> bool" where
  "clearOfProjects cfg w \<longleftrightarrow>
     staysOutside maxSymlinks (inProjectNodeModules cfg) (entries w)
       (path_join [commonTempFolder cfg, ''node_modules'', ''.bin'']) \<and>
     (\<forall>p \<in> set (projects cfg).
        case packageJsonFiles w (tempPackageJsonFilename cfg p) of
          None \<Rightarrow> True
        | Some pj \<Rightarrow>
            \<forall>d \<in> set (Object_keys (dependencies pj)).
              staysOutside maxSymlinks (inProjectNodeModules cfg) (entries w)
                (path_join [pathToLocalInstallation cfg p, d]))"

text \<open>
  Notions for comparing two runs.  The kind of an entry forgets the target of a link.
  \<open>later s f\<close>: every entry of \<open>s\<close> is still there in \<open>f\<close> with its kind.  A step
  \<open>grows\<close> within \<open>W\<close> when it only leads to later states and changes nothing outside
  \<open>W\<close>.  A step \<open>replays\<close> when, having led from \<open>s\<close> to \<open>s1\<close> on the way to a
  final state \<open>f\<close>, it does the same from any state that has the entries of \<open>f\<close> up
  to the targets of links and agrees, at each path, with \<open>f\<close> or with \<open>s\<close>; the paths
  in \<open>R\<close> are those that are read through links and never lead into \<open>W\<close>.
\<close>

fun kind :: "fsnode option \<Rightarrow> nat" where
  "kind None = 0"
| "kind (Some DirectoryNode) = 1"
| "kind (Some (SymlinkNode _)) = 2"
| "kind (Some FileNode) = 3"

definition later :: "fs \<Rightarrow> fs \<Rightarrow> bool" where
  "later s f \<longleftrightarrow> (\<forall>p. s p \<noteq> None \<longrightarrow> kind (f p) = kind (s p))"

definition agreeOutside :: "(string \<Rightarrow> bool) \<Rightarrow> fs \<Rightarrow> fs \<Rightarrow> bool" where
  "agreeOutside W s f \<longleftrightarrow> (\<forall>q. \<not> W q \<longrightarrow> f q = s q)"

definition clearAt :: "(string \<Rightarrow> bool) \<Rightarrow> (string \<Rightarrow> bool) \<Rightarrow> fs \<Rightarrow> bool" where
  "clearAt W R s \<longleftrightarrow> (\<forall>r. R r \<longrightarrow> staysOutside maxSymlinks W s r)"

definition grows :: "(string \<Rightarrow> bool) \<Rightarrow> (fs \<Rightarrow> 'r \<times> fs) \<Rightarrow> bool" where
  "grows W T \<longleftrightarrow> (\<forall>s r s1. T s = (r, s1) \<longrightarrow> later s s1 \<and> agreeOutside W s s1)"

definition replays ::
  "(string \<Rightarrow> bool) \<Rightarrow> (string \<Rightarrow> bool) \<Rightarrow> ('r \<Rightarrow> bool) \<Rightarrow> (fs \<Rightarrow> 'r \<times> fs) \<Rightarrow> bool" where
  "replays W R ok T \<longleftrightarrow>
     (\<forall>s r s1 f s'.
        T s = (r, s1) \<longrightarrow> later s1 f \<longrightarrow> clearAt W R s \<longrightarrow> agreeOutside W s f \<longrightarrow>
        (\<not> ok r \<longrightarrow> f = s1) \<longrightarrow>
        (\<forall>p. kind (s' p) = kind (f p)) \<longrightarrow> (\<forall>p. s' p = f p \<or> s' p = s p) \<longrightarrow>
        (\<exists>s1'. T s' = (r, s1') \<and> (\<forall>p. kind (s1' p) = kind (f p)) \<and>
                (\<forall>p. s1' p = f p \<or> s1' p = s1 p)))"

definition seq ::
  "('r \<Rightarrow> bool) \<Rightarrow> (fs \<Rightarrow> 'r \<times> fs) \<Rightarrow> ('r \<Rightarrow> fs \<Rightarrow> 'q \<times> fs) \<Rightarrow> ('r \<Rightarrow> 'q) \<Rightarrow>
   fs \<Rightarrow> 'q \<times> fs" where
  "seq ok T U fail s = (case T s of (r, s1) \<Rightarrow> if ok r then U r s1 else (fail r, s1))"

text \<open>
  The end-to-end scenario of the spec: project \<^verbatim>\<open>a\<close> in \<^verbatim>\<open>/tools/a\<close> with the internal
  dependency \<^verbatim>\<open>b\<close> and the ordinary dependency \<^verbatim>\<open>lodash\<close>, project \<^verbatim>\<open>b\<close> in
  \<^verbatim>\<open>/tools/b\<close>; the backend has installed \<^verbatim>\<open>lodash\<close> in \<^verbatim>\<open>/store/lodash\<close> and has put
  its link for project \<^verbatim>\<open>a\<close> in place.  The worlds list every folder on the way to
  an entry, as a disk has them.
\<close>

definition stagingA :: IPackageJson where
  "stagingA = \<lparr>name = ''@rush-temp/a'', version = ''0.0.0'',
      dependencies = Some [(''lodash'', ''1.0.0'')], rushDependencies = Some [(''b'', ''1.0.0'')]\<rparr>"

definition stagingB :: IPackageJson where
  "stagingB = \<lparr>name = ''@rush-temp/b'', version = ''0.0.0'',
      dependencies = None, rushDependencies = None\<rparr>"

definition projectA :: RushConfigurationProject where
  "projectA = \<lparr>packageName = ''a'',
      packageJson = \<lparr>name = ''a'', version = ''1.0.0'',
        dependencies = Some [(''b'', ''1.0.0''), (''lodash'', ''1.0.0'')], rushDependencies = None\<rparr>,
      projectFolder = ''/tools/a'', tempProjectName = ''@rush-temp/a''\<rparr>"

definition projectB :: RushConfigurationProject where
  "projectB = \<lparr>packageName = ''b'',
      packageJson = \<lparr>name = ''b'', version = ''1.0.0'', dependencies = None, rushDependencies = None\<rparr>,
      projectFolder = ''/tools/b'', tempProjectName = ''@rush-temp/b''\<rparr>"

definition exampleConfiguration :: RushConfiguration where
  "exampleConfiguration =
     \<lparr>projects = [projectA, projectB], commonTempFolder = ''/temp'',
      rushLinkJsonFilename = ''/temp/rush-link.json''\<rparr>"

definition exampleWorld :: world where
  "exampleWorld =
     \<lparr>entries =
        [''/temp/node_modules/.local/%2Ftemp%2Fprojects%2Fa.tgz/node_modules/lodash'' \<mapsto>
           SymlinkNode ''/store/lodash'',
         ''/temp/node_modules/.local/%2Ftemp%2Fprojects%2Fa.tgz/node_modules'' \<mapsto> DirectoryNode,
         ''/temp/node_modules/.local/%2Ftemp%2Fprojects%2Fa.tgz'' \<mapsto> DirectoryNode,
         ''/temp/node_modules/.local/%2Ftemp%2Fprojects%2Fb.tgz/node_modules'' \<mapsto> DirectoryNode,
         ''/temp/node_modules/.local/%2Ftemp%2Fprojects%2Fb.tgz'' \<mapsto> DirectoryNode,
         ''/temp/node_modules/.local'' \<mapsto> DirectoryNode,
         ''/temp/node_modules'' \<mapsto> DirectoryNode,
         ''/temp/projects/a/package.json'' \<mapsto> FileNode,
         ''/temp/projects/a'' \<mapsto> DirectoryNode,
         ''/temp/projects/b/package.json'' \<mapsto> FileNode,
         ''/temp/projects/b'' \<mapsto> DirectoryNode,
         ''/temp/projects'' \<mapsto> DirectoryNode,
         ''/temp'' \<mapsto> DirectoryNode,
         ''/store/lodash'' \<mapsto> DirectoryNode,
         ''/store'' \<mapsto> DirectoryNode,
         ''/tools/a'' \<mapsto> DirectoryNode,
         ''/tools/b'' \<mapsto> DirectoryNode,
         ''/tools'' \<mapsto> DirectoryNode],
      packageJsonFiles =
        [''/temp/projects/a/package.json'' \<mapsto> stagingA,
         ''/temp/projects/b/package.json'' \<mapsto> stagingB],
      saved = []\<rparr>"

text \<open>
  The same scenario with a stale project graph: the staging manifest of \<^verbatim>\<open>a\<close> lists
  the internal dependencies \<^verbatim>\<open>zz\<close> and \<^verbatim>\<open>yy\<close>, which no project carries.
\<close>

definition stagingTwoStale :: IPackageJson where
  "stagingTwoStale = \<lparr>name = ''@rush-temp/a'', version = ''0.0.0'',
      dependencies = Some [(''lodash'', ''1.0.0'')],
      rushDependencies = Some [(''zz'', ''1.0.0''), (''yy'', ''1.0.0'')]\<rparr>"

definition twoStaleWorld :: world where
  "twoStaleWorld = exampleWorld
     \<lparr>packageJsonFiles :=
        (packageJsonFiles exampleWorld)(''/temp/projects/a/package.json'' \<mapsto> stagingTwoStale)\<rparr>"

text \<open>
  Two projects, \<^verbatim>\<open>a\<close> and \<^verbatim>\<open>c\<close>, with the same ordinary dependency \<^verbatim>\<open>lodash\<close> at the
  same version; the backend has put one link per project under \<^verbatim>\<open>.local\<close>, both to
  the one place in its store.
\<close>

definition stagingLodash :: "string \<Rightarrow> IPackageJson" where
  "stagingLodash n = \<lparr>name = n, version = ''0.0.0'',
      dependencies = Some [(''lodash'', ''1.0.0'')], rushDependencies = None\<rparr>"

definition projectOf :: "string \<Rightarrow> RushConfigurationProject" where
  "projectOf n = \<lparr>packageName = n,
      packageJson = \<lparr>name = n, version = ''1.0.0'',
        dependencies = Some [(''lodash'', ''1.0.0'')], rushDependencies = None\<rparr>,
      projectFolder = ''/tools/'' @ n, tempProjectName = ''@rush-temp/'' @ n\<rparr>"






text \<open>
  The scenario with project \<^verbatim>\<open>b\<close> depending on \<^verbatim>\<open>react\<close>, for which the backend has
  put nothing in place: project \<^verbatim>\<open>a\<close> is linked, then project \<^verbatim>\<open>b\<close> fails.
\<close>

definition stagingBroken :: IPackageJson where
  "stagingBroken = \<lparr>name = ''@rush-temp/b'', version = ''0.0.0'',
      dependencies = Some [(''react'', ''1.0.0'')], rushDependencies = None\<rparr>"

definition brokenWorld :: world where
  "brokenWorld = exampleWorld
     \<lparr>packageJsonFiles :=
        (packageJsonFiles exampleWorld)(''/temp/projects/b/package.json'' \<mapsto> stagingBroken)\<rparr>"

text \<open>
  One project, \<^verbatim>\<open>a\<close>, whose backend link for \<^verbatim>\<open>lodash\<close> leads to the installed package
  by way of the project's own \<^verbatim>\<open>node_modules/lodash\<close>, a link left there before.
\<close>

definition loopConfiguration :: RushConfiguration where
  "loopConfiguration =
     \<lparr>projects = [projectOf ''a''], commonTempFolder = ''/temp'',
      rushLinkJsonFilename = ''/temp/rush-link.json''\<rparr>"

definition loopWorld :: world where
  "loopWorld =
     \<lparr>entries =
        [''/temp/node_modules/.local/%2Ftemp%2Fprojects%2Fa.tgz/node_modules/lodash'' \<mapsto>
           SymlinkNode ''/tools/a/node_modules/lodash'',
         ''/tools/a/node_modules/lodash'' \<mapsto> SymlinkNode ''/store/lodash'',
         ''/tools/a/node_modules'' \<mapsto> DirectoryNode,
         ''/tools/a'' \<mapsto> DirectoryNode,
         ''/tools'' \<mapsto> DirectoryNode,
         ''/temp/node_modules/.local/%2Ftemp%2Fprojects%2Fa.tgz/node_modules'' \<mapsto> DirectoryNode,
         ''/temp/node_modules/.local/%2Ftemp%2Fprojects%2Fa.tgz'' \<mapsto> DirectoryNode,
         ''/temp/node_modules/.local'' \<mapsto> DirectoryNode,
         ''/temp/node_modules'' \<mapsto> DirectoryNode,
         ''/temp/projects/a/package.json'' \<mapsto> FileNode,
         ''/temp/projects/a'' \<mapsto> DirectoryNode,
         ''/temp/projects'' \<mapsto> DirectoryNode,
         ''/temp'' \<mapsto> DirectoryNode,
         ''/store/lodash'' \<mapsto> DirectoryNode,
         ''/store'' \<mapsto> DirectoryNode],
      packageJsonFiles = [''/temp/projects/a/package.json'' \<mapsto> stagingLodash ''@rush-temp/a''],
      saved = []\<rparr>"

text \<open>
  The contents of the \<^verbatim>\<open>package.json\<close> files of the scenario with the manifest of the
  installed \<^verbatim>\<open>lodash\<close> added.
\<close>

definition filesWithLodashManifest :: "string \<rightharpoonup> IPackageJson" where
  "filesWithLodashManifest =
     (packageJsonFiles exampleWorld)
       (''/temp/node_modules/.local/%2Ftemp%2Fprojects%2Fa.tgz/node_modules/lodash/package.json'' \<mapsto>
          \<lparr>name = ''lodash'', version = ''1.0.0'', dependencies = None, rushDependencies = None\<rparr>)"




section \<open>The two loops and the tree they build\<close>

lemma children_push_sel [simp]:
  "name_pkg (children_push p c) = name_pkg p"
  "version_pkg (children_push p c) = version_pkg p"
  "folderPath (children_push p c) = folderPath p"
  "symlinkTargetFolderPath (children_push p c) = symlinkTargetFolderPath p"
  "packageJson_pkg (children_push p c) = packageJson_pkg p"
  "children (children_push p c) = children p @ [c]"
  by (simp_all add: children_push_def)

lemma createLinkedPackage_sel [simp]:
  "name_pkg (createLinkedPackage n v f) = n"
  "version_pkg (createLinkedPackage n v f) = v"
  "folderPath (createLinkedPackage n v f) = f"
  "symlinkTargetFolderPath (createLinkedPackage n v f) = None"
  "packageJson_pkg (createLinkedPackage n v f) = None"
  "children (createLinkedPackage n v f) = []"
  by (simp_all add: createLinkedPackage_def)

lemma withChildren_sel [simp]:
  "name_pkg (withChildren p cs) = name_pkg p"
  "version_pkg (withChildren p cs) = version_pkg p"
  "folderPath (withChildren p cs) = folderPath p"
  "symlinkTargetFolderPath (withChildren p cs) = symlinkTargetFolderPath p"
  "packageJson_pkg (withChildren p cs) = packageJson_pkg p"
  "children (withChildren p cs) = children p @ cs"
  by (simp_all add: withChildren_def)

lemma withChildren_Nil [simp]: "withChildren p [] = p"
  by (cases p) (simp add: withChildren_def)

lemma withChildren_push: "withChildren (children_push p c) cs = withChildren p (c # cs)"
  by (simp add: withChildren_def children_push_def)

lemma appendLinks_Cons:
  "appendLinks n ds (j\<lparr>localLinks := (localLinks j)(n \<mapsto> (case localLinks j n of None \<Rightarrow> [] | Some l \<Rightarrow> l) @ [d])\<rparr>)
   = appendLinks n (d # ds) j"
  by (simp add: appendLinks_def)

lemma not_inherited_own [simp]:
  "\<not> inherited n (j\<lparr>localLinks := (localLinks j)(n \<mapsto> l)\<rparr>)"
  by (simp add: inherited_def)

lemma linkRushDependencies_matched:
  "\<forall>d \<in> set ds. getProjectByName cfg d \<noteq> None \<Longrightarrow> ds = [] \<or> \<not> inherited (name_pkg lp) j \<Longrightarrow>
   linkRushDependencies cfg project ds lp j =
     Inr (withChildren lp (map (rushChild cfg (folderPath lp)) ds), appendLinks (name_pkg lp) ds j)"
proof (induction ds arbitrary: lp j)
  case Nil
  show ?case by (simp add: appendLinks_def)
next
  case (Cons d ds)
  from Cons.prems obtain m where m: "getProjectByName cfg d = Some m" by auto
  have rest: "\<forall>d \<in> set ds. getProjectByName cfg d \<noteq> None" using Cons.prems by simp
  have ni: "\<not> (localLinks j (name_pkg lp) = None \<and> name_pkg lp \<in> set objectPrototypeProperties)"
    using Cons.prems(2) by (simp add: inherited_def)
  have c: "set_symlinkTargetFolderPath (projectFolder m)
             (createLinkedPackage d (Some (version (packageJson m)))
                (path_join [folderPath lp, ''node_modules'', d]))
           = rushChild cfg (folderPath lp) d"
    by (simp add: set_symlinkTargetFolderPath_def rushChild_def m createLinkedPackage_def)
  let ?j = "j\<lparr>localLinks := (localLinks j)(name_pkg lp \<mapsto>
              (case localLinks j (name_pkg lp) of None \<Rightarrow> [] | Some l \<Rightarrow> l) @ [d])\<rparr>"
  have step: "linkRushDependencies cfg project (d # ds) lp j =
      linkRushDependencies cfg project ds (children_push lp (rushChild cfg (folderPath lp) d)) ?j"
    using ni by (auto simp: m Let_def c simp del: path_join.simps)
  have "ds = [] \<or> \<not> inherited (name_pkg (children_push lp (rushChild cfg (folderPath lp) d))) ?j"
    by simp
  from Cons.IH [OF rest this]
  have "linkRushDependencies cfg project ds (children_push lp (rushChild cfg (folderPath lp) d)) ?j =
      Inr (withChildren lp (map (rushChild cfg (folderPath lp)) (d # ds)),
           appendLinks (name_pkg lp) (d # ds) j)"
    by (simp add: withChildren_push appendLinks_Cons del: path_join.simps)
  then show ?case by (simp only: step)
qed

lemma linkRushDependencies_inherited:
  "getProjectByName cfg d \<noteq> None \<Longrightarrow> inherited (name_pkg lp) j \<Longrightarrow>
   linkRushDependencies cfg project (d # ds) lp j = Inl (PushIsNotAFunction (name_pkg lp))"
  by (auto simp: inherited_def simp del: path_join.simps)

lemma linkRushDependencies_unmatched:
  "\<forall>d \<in> set pre. getProjectByName cfg d \<noteq> None \<Longrightarrow> getProjectByName cfg d = None \<Longrightarrow>
   pre = [] \<or> \<not> inherited (name_pkg lp) j \<Longrightarrow>
   linkRushDependencies cfg project (pre @ d # post) lp j =
     Inl (CannotFindDependency d (packageName project))"
proof (induction pre arbitrary: lp j)
  case Nil
  then show ?case by simp
next
  case (Cons x pre)
  from Cons.prems obtain m where m: "getProjectByName cfg x = Some m" by auto
  have rest: "\<forall>d \<in> set pre. getProjectByName cfg d \<noteq> None" using Cons.prems by simp
  have ni: "\<not> (localLinks j (name_pkg lp) = None \<and> name_pkg lp \<in> set objectPrototypeProperties)"
    using Cons.prems(3) by (simp add: inherited_def)
  let ?j = "j\<lparr>localLinks := (localLinks j)(name_pkg lp \<mapsto>
              (case localLinks j (name_pkg lp) of None \<Rightarrow> [] | Some l \<Rightarrow> l) @ [x])\<rparr>"
  let ?c = "set_symlinkTargetFolderPath (projectFolder m)
             (createLinkedPackage x (Some (version (packageJson m)))
                (path_join [folderPath lp, ''node_modules'', x]))"
  have step: "linkRushDependencies cfg project ((x # pre) @ d # post) lp j =
      linkRushDependencies cfg project (pre @ d # post) (children_push lp ?c) ?j"
    using ni by (auto simp: m Let_def simp del: path_join.simps)
  have "pre = [] \<or> \<not> inherited (name_pkg (children_push lp ?c)) ?j"
    by simp
  from Cons.IH [OF rest Cons.prems(2) this] show ?case
    by (simp only: step)
qed

lemma linkRushDependencies_first_unmatched:
  assumes "\<forall>d \<in> set pre. getProjectByName cfg d \<noteq> None" "getProjectByName cfg d = None"
  shows "linkRushDependencies cfg project (pre @ d # post) lp j =
     (if pre \<noteq> [] \<and> inherited (name_pkg lp) j then Inl (PushIsNotAFunction (name_pkg lp))
      else Inl (CannotFindDependency d (packageName project)))"
proof (cases "pre \<noteq> [] \<and> inherited (name_pkg lp) j")
  case True
  then obtain x pre' where p: "pre = x # pre'" by (cases pre) auto
  with assms(1) have "getProjectByName cfg x \<noteq> None" by simp
  from linkRushDependencies_inherited [OF this, of lp j project "pre' @ d # post"] True
  show ?thesis by (simp add: p)
next
  case False
  then have "pre = [] \<or> \<not> inherited (name_pkg lp) j" by simp
  from linkRushDependencies_unmatched [OF assms this] False show ?thesis by simp
qed

lemma linkRushDependencies_Inr_iff:
  "linkRushDependencies cfg project ds lp j = Inr r \<longleftrightarrow>
     (\<forall>d \<in> set ds. getProjectByName cfg d \<noteq> None) \<and> (ds = [] \<or> \<not> inherited (name_pkg lp) j) \<and>
     r = (withChildren lp (map (rushChild cfg (folderPath lp)) ds), appendLinks (name_pkg lp) ds j)"
proof (cases "\<forall>d \<in> set ds. getProjectByName cfg d \<noteq> None")
  case True
  show ?thesis
  proof (cases "ds = [] \<or> \<not> inherited (name_pkg lp) j")
    case t: True
    from linkRushDependencies_matched [OF True t] show ?thesis using True t by auto
  next
    case False
    then obtain x ds' where p: "ds = x # ds'" by (cases ds) auto
    with True have "getProjectByName cfg x \<noteq> None" by simp
    from linkRushDependencies_inherited [OF this, of lp j project ds'] False
    show ?thesis by (simp add: p)
  qed
next
  case False
  then have "\<exists>x \<in> set ds. getProjectByName cfg x = None" by simp
  then obtain pre d post where "ds = pre @ d # post" "getProjectByName cfg d = None"
    "\<forall>x \<in> set pre. getProjectByName cfg x \<noteq> None"
    using split_list_first_prop [of ds "\<lambda>x. getProjectByName cfg x = None"] by auto
  with linkRushDependencies_first_unmatched [of pre cfg d project post lp j] False
  show ?thesis by auto
qed


lemma depChild_sel [simp]:
  "name_pkg (depChild pli f d) = d"
  "version_pkg (depChild pli f d) = None"
  "folderPath (depChild pli f d) = path_join [f, ''node_modules'', d]"
  "symlinkTargetFolderPath (depChild pli f d) = Some (path_join [pli, d])"
  "children (depChild pli f d) = []"
  by (simp_all add: depChild_def)

lemma followLinks_None: "s p = None \<Longrightarrow> \<not> followLinks n s p"
  by (cases n) simp_all

lemma existsSync_entry: "existsSync s p \<Longrightarrow> s p \<noteq> None"
  using followLinks_None [of s p maxSymlinks] by (auto simp: existsSync_def)

lemma linkDependencies_step:
  "linkDependencies files s pli (d # rest) lp =
     (if \<not> existsSync s (path_join [pli, d]) then Inl (CannotFindInstalledDependency d pli)
      else if \<not> isLink s (path_join [pli, d]) then Inl (DependencyNotSymlink d pli)
      else if d \<in> name_pkg ` set (children lp) then Inl (ChildAlreadyExists (name_pkg lp) d)
      else linkDependencies files s pli rest (children_push lp (depChild pli (folderPath lp) d)))"
proof -
  have c: "set_symlinkTargetFolderPath (path_join [pli, d])
             (createLinkedPackage d None (path_join [folderPath lp, ''node_modules'', d]))
           = depChild pli (folderPath lp) d"
    by (simp add: set_symlinkTargetFolderPath_def depChild_def createLinkedPackage_def)
  show ?thesis
  proof (cases "existsSync s (path_join [pli, d])")
    case False
    then show ?thesis by (simp del: path_join.simps)
  next
    case True
    from existsSync_entry [OF this] obtain n where n: "s (path_join [pli, d]) = Some n" by auto
    show ?thesis
      using True n
      by (cases n)
        (simp_all add: lstatSync_def isLink_def DEBUG_def c addChild_def Let_def
          del: path_join.simps)
  qed
qed

declare linkDependencies.simps(2) [simp del]

lemma linkDependencies_Inr_iff:
  "linkDependencies files s pli ds lp = Inr lp' \<longleftrightarrow>
     (\<forall>d \<in> set ds. existsSync s (path_join [pli, d]) \<and> isLink s (path_join [pli, d])) \<and>
     distinct ds \<and> set ds \<inter> name_pkg ` set (children lp) = {} \<and>
     lp' = withChildren lp (map (depChild pli (folderPath lp)) ds)"
proof (induction ds arbitrary: lp)
  case Nil
  show ?case by auto
next
  case (Cons d ds)
  show ?case
  proof (cases "existsSync s (path_join [pli, d]) \<and> isLink s (path_join [pli, d]) \<and>
                d \<notin> name_pkg ` set (children lp)")
    case True
    then have "linkDependencies files s pli (d # ds) lp =
        linkDependencies files s pli ds (children_push lp (depChild pli (folderPath lp) d))"
      by (auto simp: linkDependencies_step simp del: path_join.simps)
    then show ?thesis
      using True by (auto simp: Cons.IH withChildren_push simp del: path_join.simps)
  next
    case False
    then have "\<exists>e. linkDependencies files s pli (d # ds) lp = Inl e"
      by (auto simp: linkDependencies_step simp del: path_join.simps)
    then show ?thesis using False by (auto simp del: path_join.simps)
  qed
qed


lemma linkDependencies_cong:
  "(\<And>d. d \<in> set ds \<Longrightarrow> existsSync s' (path_join [pli, d]) = existsSync s (path_join [pli, d]) \<and>
        isLink s' (path_join [pli, d]) = isLink s (path_join [pli, d])) \<Longrightarrow>
   linkDependencies files s' pli ds lp = linkDependencies files s pli ds lp"
proof (induction ds arbitrary: lp)
  case Nil
  show ?case by simp
next
  case (Cons d ds)
  have "linkDependencies files s' pli ds lp0 = linkDependencies files s pli ds lp0" for lp0
    using Cons.prems by (intro Cons.IH) simp
  then show ?case
    using Cons.prems [of d] by (simp add: linkDependencies_step del: path_join.simps)
qed

lemma localLinks_appendLinks:
  "localLinks (appendLinks n ds j) m = (if m = n then entryAfter (localLinks j n) ds else localLinks j m)"
  by (simp add: appendLinks_def entryAfter_def)

lemma buildLocalPackage_None:
  "files (tempPackageJsonFilename cfg project) = None \<Longrightarrow>
   buildLocalPackage cfg files project j s = Inl (JsonLoadError (tempPackageJsonFilename cfg project))"
  by (simp add: buildLocalPackage_def createVirtualTempPackage_def)

lemma buildLocalPackage_Some:
  "files (tempPackageJsonFilename cfg project) = Some pj \<Longrightarrow>
   buildLocalPackage cfg files project j s =
     (case linkRushDependencies cfg project (rkeys pj)
             (createLinkedPackage (pname project) (Some (version pj)) (projectFolder project)) j of
        Inl e \<Rightarrow> Inl e
      | Inr (lp, j') \<Rightarrow>
          (case linkDependencies files s (pathToLocalInstallation cfg project) (dkeys pj) lp of
             Inl e \<Rightarrow> Inl e
           | Inr lp' \<Rightarrow> Inr (lp', j')))"
  unfolding buildLocalPackage_def createVirtualTempPackage_def rkeys_def dkeys_def pname_def
  by (simp add: Let_def)

lemma rushChild_sel [simp]:
  "name_pkg (rushChild cfg f d) = d"
  "folderPath (rushChild cfg f d) = path_join [f, ''node_modules'', d]"
  "symlinkTargetFolderPath (rushChild cfg f d) = map_option projectFolder (getProjectByName cfg d)"
  "children (rushChild cfg f d) = []"
  by (simp_all add: rushChild_def)

lemma buildLocalPackage_Inr_iff:
  "buildLocalPackage cfg files project j s = Inr (lp, j') \<longleftrightarrow>
     (\<exists>pj. files (tempPackageJsonFilename cfg project) = Some pj \<and>
        (\<forall>d \<in> set (rkeys pj). getProjectByName cfg d \<noteq> None) \<and>
        (rkeys pj = [] \<or> \<not> inherited (pname project) j) \<and>
        (\<forall>d \<in> set (dkeys pj). existsSync s (path_join [pathToLocalInstallation cfg project, d]) \<and>
                               isLink s (path_join [pathToLocalInstallation cfg project, d])) \<and>
        distinct (dkeys pj) \<and> set (dkeys pj) \<inter> set (rkeys pj) = {} \<and>
        lp = rootWith cfg project pj \<and> j' = appendLinks (pname project) (rkeys pj) j)"
proof (cases "files (tempPackageJsonFilename cfg project)")
  case None
  then show ?thesis by (simp add: buildLocalPackage_None)
next
  case (Some pj)
  let ?lp0 = "createLinkedPackage (pname project) (Some (version pj)) (projectFolder project)"
  show ?thesis
  proof (cases "(\<forall>d \<in> set (rkeys pj). getProjectByName cfg d \<noteq> None) \<and>
                (rkeys pj = [] \<or> \<not> inherited (pname project) j)")
    case True
    let ?lp1 = "withChildren ?lp0 (map (rushChild cfg (projectFolder project)) (rkeys pj))"
    have names: "name_pkg ` set (children ?lp1) = set (rkeys pj)"
      by (simp add: image_image del: path_join.simps)
    have w: "withChildren ?lp1 ys = BasePackage (pname project) (Some (version pj))
               (projectFolder project) None None
               (map (rushChild cfg (projectFolder project)) (rkeys pj) @ ys)" for ys
      by (simp add: withChildren_def createLinkedPackage_def)
    have "linkRushDependencies cfg project (rkeys pj) ?lp0 j =
            Inr (?lp1, appendLinks (pname project) (rkeys pj) j)"
      using True linkRushDependencies_matched [of "rkeys pj" cfg ?lp0 j project] by simp
    then have b: "buildLocalPackage cfg files project j s =
          (case linkDependencies files s (pathToLocalInstallation cfg project) (dkeys pj) ?lp1 of
             Inl e \<Rightarrow> Inl e
           | Inr lp' \<Rightarrow> Inr (lp', appendLinks (pname project) (rkeys pj) j))"
      by (simp add: Some buildLocalPackage_Some)
    show ?thesis
    proof (cases "linkDependencies files s (pathToLocalInstallation cfg project) (dkeys pj) ?lp1")
      case (Inl e)
      then have "\<not> ((\<forall>d \<in> set (dkeys pj).
            existsSync s (path_join [pathToLocalInstallation cfg project, d]) \<and>
            isLink s (path_join [pathToLocalInstallation cfg project, d])) \<and>
          distinct (dkeys pj) \<and> set (dkeys pj) \<inter> set (rkeys pj) = {})"
        using linkDependencies_Inr_iff [of files s "pathToLocalInstallation cfg project"
            "dkeys pj" ?lp1 "withChildren ?lp1 (map (depChild (pathToLocalInstallation cfg project) (folderPath ?lp1)) (dkeys pj))"]
        unfolding names by auto
      then show ?thesis using Inl by (auto simp: b Some)
    next
      case (Inr lp')
      from Inr have c: "(\<forall>d \<in> set (dkeys pj).
            existsSync s (path_join [pathToLocalInstallation cfg project, d]) \<and>
            isLink s (path_join [pathToLocalInstallation cfg project, d])) \<and>
          distinct (dkeys pj) \<and> set (dkeys pj) \<inter> set (rkeys pj) = {} \<and> lp' = rootWith cfg project pj"
        unfolding linkDependencies_Inr_iff names by (simp add: rootWith_def w del: path_join.simps)
      show ?thesis
        using True c by (auto simp: b Some Inr simp del: path_join.simps)
    qed
  next
    case False
    then have "linkRushDependencies cfg project (rkeys pj) ?lp0 j \<noteq> Inr r" for r
      unfolding linkRushDependencies_Inr_iff by auto
    then have "\<exists>e. linkRushDependencies cfg project (rkeys pj) ?lp0 j = Inl e"
      by (cases "linkRushDependencies cfg project (rkeys pj) ?lp0 j") auto
    then show ?thesis using False by (auto simp: Some buildLocalPackage_Some)
  qed
qed

lemma linkProject_Inr_build:
  "linkProject cfg files project j s = (Inr j', s') \<Longrightarrow>
   \<exists>lp. buildLocalPackage cfg files project j s = Inr (lp, j')"
  by (auto simp: linkProject_def Let_def split: sum.splits prod.splits option.splits if_splits)

lemma linkProject_Inr_links:
  assumes "linkProject cfg files project j s = (Inr j', s')"
  shows "\<exists>pj. files (tempPackageJsonFilename cfg project) = Some pj \<and>
           j' = appendLinks (pname project) (rkeys pj) j"
  using linkProject_Inr_build [OF assms] by (auto simp: buildLocalPackage_Inr_iff)

lemma linkAll_links:
  "linkAll cfg files ps j s = (Inr j', s') \<Longrightarrow> distinct (map pname ps) \<Longrightarrow>
     (\<forall>p \<in> set ps. \<exists>pj. files (tempPackageJsonFilename cfg p) = Some pj \<and>
         localLinks j' (pname p) = entryAfter (localLinks j (pname p)) (rkeys pj)) \<and>
     (\<forall>n. n \<notin> pname ` set ps \<longrightarrow> localLinks j' n = localLinks j n)"
proof (induction ps arbitrary: j s)
  case Nil
  then show ?case by simp
next
  case (Cons p ps)
  from Cons.prems(1) obtain j1 s1 where
    p: "linkProject cfg files p j s = (Inr j1, s1)" and
    r: "linkAll cfg files ps j1 s1 = (Inr j', s')"
    by (auto split: sum.splits prod.splits)
  from linkProject_Inr_links [OF p] obtain pj where
    pj: "files (tempPackageJsonFilename cfg p) = Some pj" and
    j1: "j1 = appendLinks (pname p) (rkeys pj) j" by auto
  have d: "distinct (map pname ps)" and np: "pname p \<notin> pname ` set ps"
    using Cons.prems(2) by auto
  note IH = Cons.IH [OF r d]
  show ?case
  proof (intro conjI ballI allI impI)
    fix q assume "q \<in> set (p # ps)"
    then consider "q = p" | "q \<in> set ps" by auto
    then show "\<exists>pj. files (tempPackageJsonFilename cfg q) = Some pj \<and>
         localLinks j' (pname q) = entryAfter (localLinks j (pname q)) (rkeys pj)"
    proof cases
      case 1
      with IH np have "localLinks j' (pname q) = localLinks j1 (pname q)" by simp
      then show ?thesis using 1 pj by (simp add: j1 localLinks_appendLinks)
    next
      case 2
      with np have "pname q \<noteq> pname p" by (metis image_eqI)
      then show ?thesis using IH 2 by (auto simp: j1 localLinks_appendLinks)
    qed
  next
    fix n assume "n \<notin> pname ` set (p # ps)"
    then show "localLinks j' n = localLinks j n"
      using IH by (simp add: j1 localLinks_appendLinks)
  qed
qed

section \<open>The run and the link manifest\<close>

lemma linkProjects_Inr:
  assumes "fst (linkProjects cfg w) = Inr ()"
  shows "\<exists>j. linkAll cfg (packageJsonFiles w) (projects cfg) \<lparr>localLinks = Map.empty\<rparr> (entries w)
               = (Inr j, entries (snd (linkProjects cfg w))) \<and>
             saved (snd (linkProjects cfg w)) = (rushLinkJsonFilename cfg, j) # saved w"
  using assms by (auto simp: linkProjects_def JsonFile_save_def split: prod.splits sum.splits)

text \<open>
  Claim C10.  After a successful run over projects with distinct names, the saved link
  manifest has an entry for a project exactly when the project's staging manifest lists
  an internal dependency: a project without one is absent as a key, not mapped to an
  empty list.
\<close>

theorem no_entry_without_internal_dependency:
  assumes "fst (linkProjects cfg w) = Inr ()"
    and "distinct (map (\<lambda>p. name (packageJson p)) (projects cfg))"
    and "project \<in> set (projects cfg)"
    and "packageJsonFiles w (tempPackageJsonFilename cfg project) = Some pj"
  shows "\<exists>rushLinkJson.
           saved (snd (linkProjects cfg w)) = (rushLinkJsonFilename cfg, rushLinkJson) # saved w \<and>
           (name (packageJson project) \<in> dom (localLinks rushLinkJson)
              \<longleftrightarrow> Object_keys (rushDependencies pj) \<noteq> [])"
proof -
  from linkProjects_Inr [OF assms(1)] obtain j where
    la: "linkAll cfg (packageJsonFiles w) (projects cfg) \<lparr>localLinks = Map.empty\<rparr> (entries w)
           = (Inr j, entries (snd (linkProjects cfg w)))" and
    sv: "saved (snd (linkProjects cfg w)) = (rushLinkJsonFilename cfg, j) # saved w" by auto
  have d: "distinct (map pname (projects cfg))"
    using assms(2) by (simp add: pname_def [abs_def])
  from linkAll_links [OF la d] assms(3,4)
  have "localLinks j (pname project) = entryAfter None (rkeys pj)" by fastforce
  then have "name (packageJson project) \<in> dom (localLinks j) \<longleftrightarrow> Object_keys (rushDependencies pj) \<noteq> []"
    by (auto simp: pname_def entryAfter_def rkeys_def dom_def)
  with sv show ?thesis by blast
qed

lemma example_run_ok: "fst (linkProjects exampleConfiguration exampleWorld) = Inr ()"
  by code_simp

lemma example_distinct: "distinct (map (\<lambda>p. name (packageJson p)) (projects exampleConfiguration))"
  by code_simp

lemma example_stagingB:
  "packageJsonFiles exampleWorld (tempPackageJsonFilename exampleConfiguration projectB) = Some stagingB"
  by code_simp

theorem no_entry_without_internal_dependency_witness:
  "fst (linkProjects exampleConfiguration exampleWorld) = Inr () \<and>
   Object_keys (rushDependencies stagingB) = [] \<and>
   (\<exists>rushLinkJson.
      saved (snd (linkProjects exampleConfiguration exampleWorld)) =
        (''/temp/rush-link.json'', rushLinkJson) # saved exampleWorld \<and>
      ''b'' \<notin> dom (localLinks rushLinkJson))"
proof -
  have k: "Object_keys (rushDependencies stagingB) = []" by code_simp
  have p: "projectB \<in> set (projects exampleConfiguration)" by (simp add: exampleConfiguration_def)
  have n: "name (packageJson projectB) = ''b''" by (simp add: projectB_def)
  have f: "rushLinkJsonFilename exampleConfiguration = ''/temp/rush-link.json''"
    by (simp add: exampleConfiguration_def)
  show ?thesis
    using no_entry_without_internal_dependency [OF example_run_ok example_distinct p example_stagingB]
    by (simp add: k n f example_run_ok)
qed

lemma linkAll_fails:
  "project \<in> set ps \<Longrightarrow> (\<And>j s. \<exists>e. fst (linkProject cfg files project j s) = Inl e) \<Longrightarrow>
   \<exists>e. fst (linkAll cfg files ps j s) = Inl e"
proof (induction ps arbitrary: j s)
  case Nil
  then show ?case by simp
next
  case (Cons p ps)
  show ?case
  proof (cases "linkProject cfg files p j s")
    case (Pair r s1)
    show ?thesis
    proof (cases r)
      case (Inl e)
      then show ?thesis using Pair by simp
    next
      case (Inr j1)
      with Pair Cons.prems(2) [of j s] have "project \<noteq> p" by auto
      with Cons.prems(1) have "project \<in> set ps" by simp
      from Cons.IH [OF this Cons.prems(2)] show ?thesis using Pair Inr by simp
    qed
  qed
qed

lemma linkProjects_Inl:
  "fst (linkAll cfg (packageJsonFiles w) (projects cfg) \<lparr>localLinks = Map.empty\<rparr> (entries w)) = Inl e \<Longrightarrow>
   fst (linkProjects cfg w) = Inl e \<and> saved (snd (linkProjects cfg w)) = saved w"
  by (auto simp: linkProjects_def split: prod.splits sum.splits)

lemma buildLocalPackage_unmatched:
  assumes "files (tempPackageJsonFilename cfg project) = Some pj"
    and "rkeys pj = pre @ d # post"
    and "\<forall>x \<in> set pre. getProjectByName cfg x \<noteq> None"
    and "getProjectByName cfg d = None"
  shows "buildLocalPackage cfg files project j s =
     (if pre \<noteq> [] \<and> inherited (pname project) j then Inl (PushIsNotAFunction (pname project))
      else Inl (CannotFindDependency d (packageName project)))"
  using assms(1)
  by (simp add: buildLocalPackage_Some assms(2) linkRushDependencies_first_unmatched [OF assms(3,4)])

lemma succeeded_cases:
  "(case fst x of Inl _ \<Rightarrow> False | Inr _ \<Rightarrow> True) \<Longrightarrow> \<exists>j s. x = (Inr j, s)"
  by (cases x) (auto split: sum.splits)

lemma failed_with_cases:
  "(case x of Inl e' \<Rightarrow> e' = e | Inr _ \<Rightarrow> False) \<Longrightarrow> x = Inl e"
  by (cases x) simp_all

text \<open>
  Claim C5 fails as stated: the staging manifest of \<^verbatim>\<open>a\<close> lists the internal
  dependencies \<^verbatim>\<open>zz\<close> and \<^verbatim>\<open>yy\<close>, neither of which matches a project; linking \<^verbatim>\<open>a\<close>, and
  with it the run, fails with the error that identifies \<^verbatim>\<open>zz\<close>, and no error
  identifies \<^verbatim>\<open>yy\<close>.
\<close>

theorem second_unmatched_dependency_not_reported:
  "packageJsonFiles twoStaleWorld (tempPackageJsonFilename exampleConfiguration projectA)
     = Some stagingTwoStale \<and>
   Object_keys (rushDependencies stagingTwoStale) = [''zz'', ''yy''] \<and>
   getProjectByName exampleConfiguration ''yy'' = None \<and>
   fst (linkProject exampleConfiguration (packageJsonFiles twoStaleWorld) projectA
          \<lparr>localLinks = Map.empty\<rparr> (entries twoStaleWorld))
     = Inl (CannotFindDependency ''zz'' ''a'') \<and>
   fst (linkProjects exampleConfiguration twoStaleWorld) = Inl (CannotFindDependency ''zz'' ''a'')"
proof -
  have "packageJsonFiles twoStaleWorld (tempPackageJsonFilename exampleConfiguration projectA)
     = Some stagingTwoStale" by code_simp
  moreover have "Object_keys (rushDependencies stagingTwoStale) = [''zz'', ''yy'']" by code_simp
  moreover have "getProjectByName exampleConfiguration ''yy'' = None" by code_simp
  moreover have "fst (linkProject exampleConfiguration (packageJsonFiles twoStaleWorld) projectA
          \<lparr>localLinks = Map.empty\<rparr> (entries twoStaleWorld))
     = Inl (CannotFindDependency ''zz'' ''a'')"
    by (rule failed_with_cases) code_simp
  moreover have "fst (linkProjects exampleConfiguration twoStaleWorld)
     = Inl (CannotFindDependency ''zz'' ''a'')" by code_simp
  ultimately show ?thesis by simp
qed

text \<open>
  Claim C5, amended.  When the staging manifest of a project lists an internal
  dependency \<open>D\<close> that matches no project of the configuration, linking the project
  throws before anything is written to the disk, whatever the link manifest and the
  disk are; the run is rejected and no link manifest is saved.  The error names the
  project and \<open>D'\<close>, the first internal dependency in the order of the manifest that
  matches no project: \<open>D\<close> itself when no unmatched name comes before it.  (For a
  project that is named like a property of \<^verbatim>\<open>Object.prototype\<close> and has no entry of its
  own in the link manifest, which error is thrown is stated only when no matched name
  comes before \<open>D'\<close>.)
\<close>

theorem first_unmatched_internal_dependency_is_fatal:
  assumes "packageJsonFiles w (tempPackageJsonFilename cfg project) = Some pj"
    and "project \<in> set (projects cfg)"
    and "D \<in> set (Object_keys (rushDependencies pj))"
    and "getProjectByName cfg D = None"
  shows "\<exists>pre D' post.
           Object_keys (rushDependencies pj) = pre @ D' # post \<and> D \<notin> set pre \<and>
           (\<forall>x \<in> set pre. getProjectByName cfg x \<noteq> None) \<and>
           getProjectByName cfg D' = None \<and>
           (\<forall>j s. pre = [] \<or> \<not> inherited (name (packageJson project)) j \<longrightarrow>
                  linkProject cfg (packageJsonFiles w) project j s =
                    (Inl (CannotFindDependency D' (packageName project)), s)) \<and>
           (\<forall>j s. \<exists>e. linkProject cfg (packageJsonFiles w) project j s = (Inl e, s)) \<and>
           (\<exists>e. fst (linkProjects cfg w) = Inl e) \<and>
           saved (snd (linkProjects cfg w)) = saved w"
proof -
  from assms(3,4) have "\<exists>x \<in> set (rkeys pj). getProjectByName cfg x = None"
    by (auto simp: rkeys_def)
  from split_list_first_prop [OF this] obtain pre D' post where
    k: "rkeys pj = pre @ D' # post" and u: "getProjectByName cfg D' = None" and
    m: "\<forall>x \<in> set pre. getProjectByName cfg x \<noteq> None" by auto
  have lp: "linkProject cfg (packageJsonFiles w) project j s =
              (if pre \<noteq> [] \<and> inherited (name (packageJson project)) j
               then Inl (PushIsNotAFunction (name (packageJson project)))
               else Inl (CannotFindDependency D' (packageName project)), s)" for j s
    using buildLocalPackage_unmatched [where files = "packageJsonFiles w", OF assms(1) k m u, of j s]
    by (simp add: linkProject_def pname_def)
  then have fails: "\<exists>e. linkProject cfg (packageJsonFiles w) project j s = (Inl e, s)" for j s
    by simp
  then have "\<exists>e. fst (linkProject cfg (packageJsonFiles w) project j s) = Inl e" for j s
    by (metis fst_conv)
  from linkAll_fails [OF assms(2) this] obtain e where
    "fst (linkAll cfg (packageJsonFiles w) (projects cfg) \<lparr>localLinks = Map.empty\<rparr> (entries w)) = Inl e"
    by blast
  from linkProjects_Inl [OF this] have
    r: "(\<exists>e. fst (linkProjects cfg w) = Inl e) \<and> saved (snd (linkProjects cfg w)) = saved w"
    by blast
  have first: "\<forall>j s. pre = [] \<or> \<not> inherited (name (packageJson project)) j \<longrightarrow>
                  linkProject cfg (packageJsonFiles w) project j s =
                    (Inl (CannotFindDependency D' (packageName project)), s)"
    using lp by auto
  have "D \<notin> set pre" using m assms(4) by auto
  with k u m first fails r show ?thesis unfolding rkeys_def by blast
qed

lemma example_projectA: "projectA \<in> set (projects exampleConfiguration)"
  by (simp add: exampleConfiguration_def)

lemma twoStale_stagingA:
  "packageJsonFiles twoStaleWorld (tempPackageJsonFilename exampleConfiguration projectA)
     = Some stagingTwoStale"
  by code_simp

theorem first_unmatched_internal_dependency_is_fatal_witness:
  "Object_keys (rushDependencies stagingTwoStale) = [''zz'', ''yy''] \<and>
   getProjectByName exampleConfiguration ''yy'' = None \<and>
   getProjectByName exampleConfiguration ''zz'' = None \<and>
   linkProject exampleConfiguration (packageJsonFiles twoStaleWorld) projectA
     \<lparr>localLinks = Map.empty\<rparr> (entries twoStaleWorld)
     = (Inl (CannotFindDependency ''zz'' ''a''), entries twoStaleWorld) \<and>
   (\<exists>e. fst (linkProjects exampleConfiguration twoStaleWorld) = Inl e) \<and>
   saved (snd (linkProjects exampleConfiguration twoStaleWorld)) = saved twoStaleWorld"
proof -
  have ks: "Object_keys (rushDependencies stagingTwoStale) = [''zz'', ''yy'']" by code_simp
  have d: "''yy'' \<in> set (Object_keys (rushDependencies stagingTwoStale))" by code_simp
  have u: "getProjectByName exampleConfiguration ''yy'' = None" by code_simp
  have z: "getProjectByName exampleConfiguration ''zz'' = None" by code_simp
  have n: "packageName projectA = ''a''" by (simp add: projectA_def)
  from first_unmatched_internal_dependency_is_fatal [OF twoStale_stagingA example_projectA d u]
  obtain pre D' post where
    k: "Object_keys (rushDependencies stagingTwoStale) = pre @ D' # post" and
    m: "\<forall>x \<in> set pre. getProjectByName exampleConfiguration x \<noteq> None" and
    l: "\<forall>j s. pre = [] \<or> \<not> inherited (name (packageJson projectA)) j \<longrightarrow>
          linkProject exampleConfiguration (packageJsonFiles twoStaleWorld) projectA j s =
            (Inl (CannotFindDependency D' (packageName projectA)), s)" and
    r: "\<exists>e. fst (linkProjects exampleConfiguration twoStaleWorld) = Inl e" and
    sv: "saved (snd (linkProjects exampleConfiguration twoStaleWorld)) = saved twoStaleWorld"
    by blast
  have "pre = []"
  proof (cases pre)
    case Nil
    then show ?thesis .
  next
    case (Cons x xs)
    with k ks have "x = ''zz''" by simp
    with Cons m z show ?thesis by simp
  qed
  with k ks have "D' = ''zz''" by simp
  with l \<open>pre = []\<close> have "linkProject exampleConfiguration (packageJsonFiles twoStaleWorld) projectA
     \<lparr>localLinks = Map.empty\<rparr> (entries twoStaleWorld)
     = (Inl (CannotFindDependency ''zz'' ''a''), entries twoStaleWorld)"
    by (simp add: n)
  with ks u z r sv show ?thesis by blast
qed

section \<open>What the projection leaves on the disk\<close>

lemma createSymlink_other:
  "createSymlink t l k s = (r, s') \<Longrightarrow> p \<noteq> l \<Longrightarrow> s' p = s p"
  by (auto simp: createSymlink_def split: option.splits fsnode.splits)

lemma createSymlink_made:
  "createSymlink t l k s = (None, s') \<Longrightarrow> s' l = Some (SymlinkNode t)"
  by (auto simp: createSymlink_def split: option.splits fsnode.splits)

lemma createSymlinksForDependencies_target:
  "symlinkTargetFolderPath c = Some t \<Longrightarrow>
   createSymlinksForDependencies c s = createSymlink t (folderPath c) Directory s"
  by (cases c) simp

lemma createSymlinksForChildren_other:
  "\<forall>c \<in> set cs. symlinkTargetFolderPath c \<noteq> None \<Longrightarrow>
   createSymlinksForChildren cs s = (r, s') \<Longrightarrow> p \<notin> folderPath ` set cs \<Longrightarrow> s' p = s p"
proof (induction cs arbitrary: s)
  case Nil
  then show ?case by simp
next
  case (Cons c cs)
  from Cons.prems(1) obtain t where t: "symlinkTargetFolderPath c = Some t" by auto
  obtain r1 s1 where s1: "createSymlink t (folderPath c) Directory s = (r1, s1)"
    by (cases "createSymlink t (folderPath c) Directory s")
  have p: "s1 p = s p" using createSymlink_other [OF s1] Cons.prems(3) by auto
  show ?case
  proof (cases r1)
    case None
    with Cons.prems(2) have "createSymlinksForChildren cs s1 = (r, s')"
      by (simp add: createSymlinksForDependencies_target [OF t] s1)
    from Cons.IH [OF _ this] Cons.prems(1,3) p show ?thesis by simp
  next
    case (Some e)
    with Cons.prems(2) have "s' = s1"
      by (simp add: createSymlinksForDependencies_target [OF t] s1)
    with p show ?thesis by simp
  qed
qed

lemma createSymlinksForChildren_made:
  "\<forall>c \<in> set cs. symlinkTargetFolderPath c \<noteq> None \<Longrightarrow>
   createSymlinksForChildren cs s = (None, s') \<Longrightarrow> c \<in> set cs \<Longrightarrow>
   \<forall>c' \<in> set cs. folderPath c' = folderPath c \<longrightarrow>
      symlinkTargetFolderPath c' = symlinkTargetFolderPath c \<Longrightarrow>
   s' (folderPath c) = Some (SymlinkNode (the (symlinkTargetFolderPath c)))"
proof (induction cs arbitrary: s c)
  case Nil
  then show ?case by simp
next
  case (Cons x xs)
  from Cons.prems(1) obtain t where t: "symlinkTargetFolderPath x = Some t" by auto
  from Cons.prems(2) obtain s1 where
    s1: "createSymlink t (folderPath x) Directory s = (None, s1)" and
    r: "createSymlinksForChildren xs s1 = (None, s')"
    by (auto simp: createSymlinksForDependencies_target [OF t] split: prod.splits option.splits)
  have all: "\<forall>c \<in> set xs. symlinkTargetFolderPath c \<noteq> None" using Cons.prems(1) by simp
  show ?case
  proof (cases "\<exists>c' \<in> set xs. folderPath c' = folderPath c")
    case True
    then obtain c' where c': "c' \<in> set xs" "folderPath c' = folderPath c" by auto
    with Cons.prems(4) have tc: "symlinkTargetFolderPath c' = symlinkTargetFolderPath c" by simp
    have "\<forall>y \<in> set xs. folderPath y = folderPath c' \<longrightarrow>
            symlinkTargetFolderPath y = symlinkTargetFolderPath c'"
      using Cons.prems(4) c' tc by simp
    from Cons.IH [OF all r c'(1) this] show ?thesis by (simp add: c'(2) tc)
  next
    case False
    then have nc: "folderPath c \<notin> folderPath ` set xs" by auto
    with Cons.prems(3) have cx: "c = x" by auto
    have "s' (folderPath c) = s1 (folderPath c)"
      by (rule createSymlinksForChildren_other [OF all r nc])
    also have "\<dots> = Some (SymlinkNode t)" using createSymlink_made [OF s1] cx by simp
    finally show ?thesis by (simp add: cx t)
  qed
qed

lemma path_join3_eq [simp]: "path_join [f, n, d] = path_join [f, n, d'] \<longleftrightarrow> d = d'"
  by simp

lemma path_join2_neq_3 [simp]: "path_join [f, n] \<noteq> path_join [f, n, d]"
  by simp

lemma rootWith_sel [simp]:
  "name_pkg (rootWith cfg project pj) = pname project"
  "folderPath (rootWith cfg project pj) = projectFolder project"
  "symlinkTargetFolderPath (rootWith cfg project pj) = None"
  "children (rootWith cfg project pj) =
     map (rushChild cfg (projectFolder project)) (rkeys pj) @
     map (depChild (pathToLocalInstallation cfg project) (projectFolder project)) (dkeys pj)"
  by (simp_all add: rootWith_def)

lemma rootWith_children_folder:
  "c \<in> set (children (rootWith cfg project pj)) \<Longrightarrow>
   folderPath c = path_join [projectFolder project, ''node_modules'', name_pkg c]"
  by (auto simp del: path_join.simps)

lemma rootWith_children_target:
  assumes "\<forall>d \<in> set (rkeys pj). getProjectByName cfg d \<noteq> None"
    and "c \<in> set (children (rootWith cfg project pj))"
  shows "symlinkTargetFolderPath c \<noteq> None"
  using assms by (auto simp del: path_join.simps)

lemma rootWith_children_same:
  assumes "set (dkeys pj) \<inter> set (rkeys pj) = {}"
    and "c \<in> set (children (rootWith cfg project pj))"
    and "c' \<in> set (children (rootWith cfg project pj))"
    and "folderPath c' = folderPath c"
  shows "symlinkTargetFolderPath c' = symlinkTargetFolderPath c"
proof -
  have "name_pkg c' = name_pkg c"
    using assms(4) rootWith_children_folder [OF assms(2)] rootWith_children_folder [OF assms(3)]
    by (simp del: path_join.simps)
  then show ?thesis using assms(1,2,3) by (auto simp del: path_join.simps)
qed

lemma createSymlinksForTopLevelProject_made:
  assumes ok: "createSymlinksForTopLevelProject (rootWith cfg project pj) s = (None, s')"
    and m: "\<forall>d \<in> set (rkeys pj). getProjectByName cfg d \<noteq> None"
    and dj: "set (dkeys pj) \<inter> set (rkeys pj) = {}"
    and c: "c \<in> set (children (rootWith cfg project pj))"
  shows "s' (folderPath c) = Some (SymlinkNode (the (symlinkTargetFolderPath c)))"
proof -
  let ?cs = "children (rootWith cfg project pj)"
  from c have ne: "?cs \<noteq> []" by auto
  with ok have r: "createSymlinksForChildren ?cs
      (createFolder (path_join [projectFolder project, ''node_modules'']) s) = (None, s')"
    by (simp add: createSymlinksForTopLevelProject_def del: path_join.simps rootWith_sel(4))
  have all: "\<forall>c \<in> set ?cs. symlinkTargetFolderPath c \<noteq> None"
    using rootWith_children_target [OF m] by blast
  have same: "\<forall>c' \<in> set ?cs. folderPath c' = folderPath c \<longrightarrow>
      symlinkTargetFolderPath c' = symlinkTargetFolderPath c"
    using rootWith_children_same [OF dj c] by blast
  show ?thesis by (rule createSymlinksForChildren_made [OF all r c same])
qed

lemma linkProject_made:
  assumes ok: "linkProject cfg files project j s = (Inr j', s')"
    and pj: "files (tempPackageJsonFilename cfg project) = Some pj"
    and c: "c \<in> set (children (rootWith cfg project pj))"
    and nb: "name_pkg c \<noteq> ''.bin''"
  shows "s' (folderPath c) = Some (SymlinkNode (the (symlinkTargetFolderPath c)))"
proof -
  from linkProject_Inr_build [OF ok] obtain lp where
    b: "buildLocalPackage cfg files project j s = Inr (lp, j')" by blast
  with pj have lp: "lp = rootWith cfg project pj" and
    m: "\<forall>d \<in> set (rkeys pj). getProjectByName cfg d \<noteq> None" and
    dj: "set (dkeys pj) \<inter> set (rkeys pj) = {}"
    by (auto simp: buildLocalPackage_Inr_iff simp del: path_join.simps)
  from ok b lp obtain s1 where
    s1: "createSymlinksForTopLevelProject (rootWith cfg project pj) s = (None, s1)" and
    s': "s' = s1 \<or> (\<exists>r. createSymlink (path_join [commonTempFolder cfg, ''node_modules'', ''.bin''])
              (path_join [projectFolder project, ''node_modules'', ''.bin'']) Directory s1 = (r, s'))"
    by (auto simp: linkProject_def Let_def simp del: path_join.simps
        split: prod.splits option.splits if_splits)
  have f: "folderPath c \<noteq> path_join [projectFolder project, ''node_modules'', ''.bin'']"
    using rootWith_children_folder [OF c] nb by (simp del: path_join.simps)
  have "s' (folderPath c) = s1 (folderPath c)"
    using s' createSymlink_other f by blast
  then show ?thesis using createSymlinksForTopLevelProject_made [OF s1 m dj c] by simp
qed

lemma linkAll_each_linked:
  "linkAll cfg files ps j s = (Inr j', s') \<Longrightarrow> p \<in> set ps \<Longrightarrow>
   \<exists>j1 s1 j2 s2. linkProject cfg files p j1 s1 = (Inr j2, s2)"
proof (induction ps arbitrary: j s)
  case Nil
  then show ?case by simp
next
  case (Cons q ps)
  from Cons.prems(1) obtain j1 s1 where
    q: "linkProject cfg files q j s = (Inr j1, s1)" and
    r: "linkAll cfg files ps j1 s1 = (Inr j', s')"
    by (auto split: sum.splits prod.splits)
  show ?case
  proof (cases "p = q")
    case True
    with q show ?thesis by blast
  next
    case False
    with Cons.prems(2) have "p \<in> set ps" by simp
    from Cons.IH [OF r this] show ?thesis .
  qed
qed

text \<open>
  Claim C1.  After a successful run over projects with distinct names, every internal
  dependency \<open>D\<close> of a project matches a project of the configuration; the tree built
  for the project has the child named \<open>D\<close> at the project's \<^verbatim>\<open>node_modules/D\<close> whose
  symlink target is the matched project's own folder, the link is on the disk once the
  project is linked, and the saved link manifest maps the project to exactly the
  internal dependency names of its staging manifest, in their order, none of which is
  an ordinary dependency of that manifest.
\<close>

theorem internal_dependency_linked_to_project_folder:
  assumes "fst (linkProjects cfg w) = Inr ()"
    and "distinct (map (\<lambda>p. name (packageJson p)) (projects cfg))"
    and "project \<in> set (projects cfg)"
    and "packageJsonFiles w (tempPackageJsonFilename cfg project) = Some pj"
    and "D \<in> set (Object_keys (rushDependencies pj))"
  shows "\<exists>matched rushLinkJson.
           getProjectByName cfg D = Some matched \<and>
           (\<forall>j s localPackage j'.
              buildLocalPackage cfg (packageJsonFiles w) project j s = Inr (localPackage, j') \<longrightarrow>
              BasePackage D (Some (version (packageJson matched)))
                (path_join [projectFolder project, ''node_modules'', D])
                (Some (projectFolder matched)) None [] \<in> set (children localPackage)) \<and>
           (\<forall>j s j' s'.
              linkProject cfg (packageJsonFiles w) project j s = (Inr j', s') \<longrightarrow> D \<noteq> ''.bin'' \<longrightarrow>
              s' (path_join [projectFolder project, ''node_modules'', D]) =
                Some (SymlinkNode (projectFolder matched))) \<and>
           saved (snd (linkProjects cfg w)) = (rushLinkJsonFilename cfg, rushLinkJson) # saved w \<and>
           localLinks rushLinkJson (name (packageJson project)) =
             Some (Object_keys (rushDependencies pj)) \<and>
           set (Object_keys (rushDependencies pj)) \<inter> set (Object_keys (dependencies pj)) = {}"
proof -
  let ?files = "packageJsonFiles w"
  from linkProjects_Inr [OF assms(1)] obtain rl where
    la: "linkAll cfg ?files (projects cfg) \<lparr>localLinks = Map.empty\<rparr> (entries w)
           = (Inr rl, entries (snd (linkProjects cfg w)))" and
    sv: "saved (snd (linkProjects cfg w)) = (rushLinkJsonFilename cfg, rl) # saved w" by auto
  have d: "distinct (map pname (projects cfg))"
    using assms(2) by (simp add: pname_def [abs_def])
  have D: "D \<in> set (rkeys pj)" using assms(5) by (simp add: rkeys_def)
  from linkAll_links [OF la d] assms(3,4)
  have "localLinks rl (pname project) = entryAfter None (rkeys pj)" by fastforce
  with D have entry: "localLinks rl (name (packageJson project)) = Some (Object_keys (rushDependencies pj))"
    by (auto simp: pname_def entryAfter_def rkeys_def)
  from linkAll_each_linked [OF la assms(3)] obtain j1 s1 j2 s2 where
    "linkProject cfg ?files project j1 s1 = (Inr j2, s2)" by blast
  from linkProject_Inr_build [OF this] assms(4) have
    m: "\<forall>d \<in> set (rkeys pj). getProjectByName cfg d \<noteq> None" and
    dj: "set (dkeys pj) \<inter> set (rkeys pj) = {}"
    by (auto simp: buildLocalPackage_Inr_iff simp del: path_join.simps)
  from m D obtain matched where matched: "getProjectByName cfg D = Some matched" by auto
  let ?c = "rushChild cfg (projectFolder project) D"
  have c: "?c \<in> set (children (rootWith cfg project pj))" using D by simp
  have ceq: "?c = BasePackage D (Some (version (packageJson matched)))
                (path_join [projectFolder project, ''node_modules'', D])
                (Some (projectFolder matched)) None []"
    by (simp add: rushChild_def matched)
  have node: "BasePackage D (Some (version (packageJson matched)))
                (path_join [projectFolder project, ''node_modules'', D])
                (Some (projectFolder matched)) None [] \<in> set (children localPackage)"
    if "buildLocalPackage cfg ?files project j s = Inr (localPackage, j')" for j s localPackage j'
  proof -
    from that assms(4) have "localPackage = rootWith cfg project pj"
      by (auto simp: buildLocalPackage_Inr_iff simp del: path_join.simps)
    with c ceq show ?thesis by (simp del: path_join.simps rootWith_sel)
  qed
  have disk: "s' (path_join [projectFolder project, ''node_modules'', D]) =
                Some (SymlinkNode (projectFolder matched))"
    if "linkProject cfg ?files project j s = (Inr j', s')" and "D \<noteq> ''.bin''" for j s j' s'
  proof -
    have "name_pkg ?c \<noteq> ''.bin''" using that(2) by simp
    from linkProject_made [OF that(1) assms(4) c this] show ?thesis
      by (simp add: matched del: path_join.simps)
  qed
  have dis: "set (Object_keys (rushDependencies pj)) \<inter> set (Object_keys (dependencies pj)) = {}"
    using dj by (auto simp: rkeys_def dkeys_def)
  from matched node disk sv entry dis show ?thesis by blast
qed

theorem internal_dependency_linked_to_project_folder_witness:
  "fst (linkProjects exampleConfiguration exampleWorld) = Inr () \<and>
   ''b'' \<in> set (Object_keys (rushDependencies stagingA)) \<and>
   getProjectByName exampleConfiguration ''b'' = Some projectB \<and>
   snd (linkProject exampleConfiguration (packageJsonFiles exampleWorld) projectA
          \<lparr>localLinks = Map.empty\<rparr> (entries exampleWorld)) ''/tools/a/node_modules/b''
     = Some (SymlinkNode ''/tools/b'') \<and>
   (\<exists>rushLinkJson.
      saved (snd (linkProjects exampleConfiguration exampleWorld)) =
        (''/temp/rush-link.json'', rushLinkJson) # saved exampleWorld \<and>
      localLinks rushLinkJson ''a'' = Some [''b''])"
proof -
  have sa: "packageJsonFiles exampleWorld (tempPackageJsonFilename exampleConfiguration projectA)
              = Some stagingA" by code_simp
  have d: "''b'' \<in> set (Object_keys (rushDependencies stagingA))" by code_simp
  have g: "getProjectByName exampleConfiguration ''b'' = Some projectB" by code_simp
  have k: "Object_keys (rushDependencies stagingA) = [''b'']" by code_simp
  have l: "case fst (linkProject exampleConfiguration (packageJsonFiles exampleWorld) projectA
          \<lparr>localLinks = Map.empty\<rparr> (entries exampleWorld)) of Inl _ \<Rightarrow> False | Inr _ \<Rightarrow> True"
    by code_simp
  then obtain j1 s1 where l1: "linkProject exampleConfiguration (packageJsonFiles exampleWorld)
      projectA \<lparr>localLinks = Map.empty\<rparr> (entries exampleWorld) = (Inr j1, s1)"
    by (cases "linkProject exampleConfiguration (packageJsonFiles exampleWorld) projectA
          \<lparr>localLinks = Map.empty\<rparr> (entries exampleWorld)") (auto split: sum.splits)
  have n: "name (packageJson projectA) = ''a''" "projectFolder projectA = ''/tools/a''"
    "projectFolder projectB = ''/tools/b''"
    "rushLinkJsonFilename exampleConfiguration = ''/temp/rush-link.json''"
    by (simp_all add: projectA_def projectB_def exampleConfiguration_def)
  from internal_dependency_linked_to_project_folder
    [OF example_run_ok example_distinct example_projectA sa d]
  obtain matched rushLinkJson where
    m: "getProjectByName exampleConfiguration ''b'' = Some matched" and
    dk: "\<forall>j s j' s'.
          linkProject exampleConfiguration (packageJsonFiles exampleWorld) projectA j s = (Inr j', s') \<longrightarrow>
          ''b'' \<noteq> ''.bin'' \<longrightarrow>
          s' (path_join [projectFolder projectA, ''node_modules'', ''b'']) =
            Some (SymlinkNode (projectFolder matched))" and
    sv: "saved (snd (linkProjects exampleConfiguration exampleWorld)) =
           (rushLinkJsonFilename exampleConfiguration, rushLinkJson) # saved exampleWorld" and
    en: "localLinks rushLinkJson (name (packageJson projectA)) =
           Some (Object_keys (rushDependencies stagingA))"
    by blast
  from m g have mb: "matched = projectB" by simp
  have "snd (linkProject exampleConfiguration (packageJsonFiles exampleWorld) projectA
          \<lparr>localLinks = Map.empty\<rparr> (entries exampleWorld))
          (path_join [projectFolder projectA, ''node_modules'', ''b''])
        = Some (SymlinkNode (projectFolder matched))"
    using dk l1 by auto
  then have disk: "snd (linkProject exampleConfiguration (packageJsonFiles exampleWorld) projectA
          \<lparr>localLinks = Map.empty\<rparr> (entries exampleWorld)) ''/tools/a/node_modules/b''
     = Some (SymlinkNode ''/tools/b'')"
    by (simp add: mb n path_sep_def)
  from sv en have "\<exists>rushLinkJson.
      saved (snd (linkProjects exampleConfiguration exampleWorld)) =
        (''/temp/rush-link.json'', rushLinkJson) # saved exampleWorld \<and>
      localLinks rushLinkJson ''a'' = Some [''b'']"
    by (simp add: n k)
  with example_run_ok d g disk show ?thesis by blast
qed

section \<open>Where linking writes, and what it leaves\<close>

lemma kind_0 [simp]: "kind x = 0 \<longleftrightarrow> x = None"
  by (cases x rule: kind.cases) simp_all

lemma kind_2: "kind x = 2 \<longleftrightarrow> (\<exists>t. x = Some (SymlinkNode t))"
  by (cases x rule: kind.cases) simp_all

lemma later_refl [simp]: "later s s"
  by (simp add: later_def)

lemma later_trans: "later s t \<Longrightarrow> later t u \<Longrightarrow> later s u"
  unfolding later_def by (metis kind_0)

lemma agreeOutside_refl [simp]: "agreeOutside W s s"
  by (simp add: agreeOutside_def)

lemma agreeOutside_trans: "agreeOutside W s t \<Longrightarrow> agreeOutside W t u \<Longrightarrow> agreeOutside W s u"
  by (simp add: agreeOutside_def)

lemma agreeOutside_after: "agreeOutside W s t \<Longrightarrow> agreeOutside W s f \<Longrightarrow> agreeOutside W t f"
  by (simp add: agreeOutside_def)

lemma staysOutside_here: "staysOutside n W s p \<Longrightarrow> \<not> W p"
  by (cases n) simp_all

lemma followLinks_agree:
  "agreeOutside W s s' \<Longrightarrow> staysOutside n W s p \<Longrightarrow> followLinks n s' p = followLinks n s p"
proof (induction n arbitrary: p)
  case 0
  then have "s' p = s p" by (simp add: agreeOutside_def)
  then show ?case by simp
next
  case (Suc n)
  from Suc.prems have e: "s' p = s p" by (simp add: agreeOutside_def)
  show ?case
  proof (cases "s p")
    case None
    with e show ?thesis by simp
  next
    case (Some x)
    show ?thesis
    proof (cases x)
      case (SymlinkNode t)
      with Some Suc.prems(2) have "staysOutside n W s t" by simp
      from Suc.IH [OF Suc.prems(1) this] show ?thesis using e Some SymlinkNode by simp
    qed (use e Some in simp_all)
  qed
qed

lemma staysOutside_agree:
  "agreeOutside W s s' \<Longrightarrow> staysOutside n W s p \<Longrightarrow> staysOutside n W s' p"
proof (induction n arbitrary: p)
  case 0
  then show ?case by simp
next
  case (Suc n)
  from Suc.prems have e: "s' p = s p" and w: "\<not> W p" by (simp_all add: agreeOutside_def)
  show ?case
  proof (cases "s p")
    case None
    with e w show ?thesis by simp
  next
    case (Some x)
    show ?thesis
    proof (cases x)
      case (SymlinkNode t)
      with Some Suc.prems(2) have "staysOutside n W s t" by simp
      from Suc.IH [OF Suc.prems(1) this] show ?thesis using e w Some SymlinkNode by simp
    qed (use e w Some in simp_all)
  qed
qed

lemma existsSync_agree:
  "agreeOutside W s s' \<Longrightarrow> staysOutside maxSymlinks W s p \<Longrightarrow> existsSync s' p = existsSync s p"
  by (simp add: existsSync_def followLinks_agree)

lemma clearAt_agree: "agreeOutside W s s' \<Longrightarrow> clearAt W R s \<Longrightarrow> clearAt W R s'"
  by (simp add: clearAt_def staysOutside_agree)

lemma read_stable:
  assumes "clearAt W R s" and "agreeOutside W s f" and "\<forall>p. s' p = f p \<or> s' p = s p" and "R r"
  shows "s' r = s r" and "existsSync s' r = existsSync s r"
proof -
  have a: "agreeOutside W s s'"
    unfolding agreeOutside_def
  proof (intro allI impI)
    fix q assume "\<not> W q"
    with assms(2) have "f q = s q" by (simp add: agreeOutside_def)
    with assms(3) show "s' q = s q" by metis
  qed
  from assms(1,4) have st: "staysOutside maxSymlinks W s r" by (simp add: clearAt_def)
  from staysOutside_here [OF st] a show "s' r = s r" by (simp add: agreeOutside_def)
  from existsSync_agree [OF a st] show "existsSync s' r = existsSync s r" .
qed

lemma growsD: "grows W T \<Longrightarrow> T s = (r, s1) \<Longrightarrow> later s s1 \<and> agreeOutside W s s1"
  by (auto simp: grows_def)

lemma replaysD:
  assumes "replays W R ok T" and "T s = (r, s1)" and "later s1 f"
    and "clearAt W R s" and "agreeOutside W s f" and "\<not> ok r \<longrightarrow> f = s1"
    and "\<forall>p. kind (s' p) = kind (f p)" and "\<forall>p. s' p = f p \<or> s' p = s p"
  shows "\<exists>s1'. T s' = (r, s1') \<and> (\<forall>p. kind (s1' p) = kind (f p)) \<and>
                (\<forall>p. s1' p = f p \<or> s1' p = s1 p)"
proof -
  from assms(1) have "T s = (r, s1) \<longrightarrow> later s1 f \<longrightarrow> clearAt W R s \<longrightarrow> agreeOutside W s f \<longrightarrow>
        (\<not> ok r \<longrightarrow> f = s1) \<longrightarrow>
        (\<forall>p. kind (s' p) = kind (f p)) \<longrightarrow> (\<forall>p. s' p = f p \<or> s' p = s p) \<longrightarrow>
        (\<exists>s1'. T s' = (r, s1') \<and> (\<forall>p. kind (s1' p) = kind (f p)) \<and>
                (\<forall>p. s1' p = f p \<or> s1' p = s1 p))"
    unfolding replays_def by (elim allE)
  with assms(2-) show ?thesis by simp
qed

lemma replays_fixpoint:
  assumes "replays W R ok T" and "grows W T" and "T s = (r, f)" and "clearAt W R s"
  shows "T f = (r, f)"
proof -
  from growsD [OF assms(2,3)] have a: "agreeOutside W s f" by simp
  from replaysD [OF assms(1,3) _ assms(4) a, of f]
  obtain s1' where t: "T f = (r, s1')" and e: "\<forall>p. s1' p = f p \<or> s1' p = f p"
    by auto
  from e have "s1' = f" by (intro ext) simp
  with t show ?thesis by simp
qed

lemma grows_seq:
  assumes "grows W T" and "\<And>r. ok r \<Longrightarrow> grows W (U r)"
  shows "grows W (seq ok T U fail)"
  unfolding grows_def
proof (intro allI impI)
  fix s q s1 assume a: "seq ok T U fail s = (q, s1)"
  obtain r sa where t: "T s = (r, sa)" by (cases "T s")
  from growsD [OF assms(1) t] have l: "later s sa" and g: "agreeOutside W s sa" by simp_all
  show "later s s1 \<and> agreeOutside W s s1"
  proof (cases "ok r")
    case True
    with a t have "U r sa = (q, s1)" by (simp add: seq_def)
    from growsD [OF assms(2) [OF True] this] have "later sa s1" "agreeOutside W sa s1" by simp_all
    with l g show ?thesis using later_trans agreeOutside_trans by blast
  next
    case False
    with a t have "s1 = sa" by (simp add: seq_def)
    with l g show ?thesis by simp
  qed
qed

lemma replays_seq:
  assumes T: "replays W R ok T" and gT: "grows W T"
    and U: "\<And>r. ok r \<Longrightarrow> replays W R ok' (U r)" and gU: "\<And>r. ok r \<Longrightarrow> grows W (U r)"
    and fl: "\<And>r. \<not> ok r \<Longrightarrow> \<not> ok' (fail r)"
  shows "replays W R ok' (seq ok T U fail)"
  unfolding replays_def
proof (intro allI impI)
  fix s q s1 f s'
  assume a: "seq ok T U fail s = (q, s1)" and l: "later s1 f"
    and cl: "clearAt W R s" and ag: "agreeOutside W s f" and nf: "\<not> ok' q \<longrightarrow> f = s1"
    and k: "\<forall>p. kind (s' p) = kind (f p)" and e: "\<forall>p. s' p = f p \<or> s' p = s p"
  obtain r sa where t: "T s = (r, sa)" by (cases "T s")
  from growsD [OF gT t] have lsa: "later s sa" and gsa: "agreeOutside W s sa" by simp_all
  show "\<exists>s1'. seq ok T U fail s' = (q, s1') \<and> (\<forall>p. kind (s1' p) = kind (f p)) \<and>
                (\<forall>p. s1' p = f p \<or> s1' p = s1 p)"
  proof (cases "ok r")
    case True
    with a t have u: "U r sa = (q, s1)" by (simp add: seq_def)
    from growsD [OF gU [OF True] u] have "later sa s1" by simp
    from this l have lf: "later sa f" by (rule later_trans)
    from replaysD [OF T t lf cl ag _ k e] True
    obtain sa' where t': "T s' = (r, sa')" and k': "\<forall>p. kind (sa' p) = kind (f p)"
      and e': "\<forall>p. sa' p = f p \<or> sa' p = sa p" by auto
    have cl': "clearAt W R sa" by (rule clearAt_agree [OF gsa cl])
    have ag': "agreeOutside W sa f" by (rule agreeOutside_after [OF gsa ag])
    from replaysD [OF U [OF True] u l cl' ag' nf k' e']
    obtain s1' where "U r sa' = (q, s1')" "\<forall>p. kind (s1' p) = kind (f p)"
      "\<forall>p. s1' p = f p \<or> s1' p = s1 p" by auto
    with t' True show ?thesis by (auto simp: seq_def)
  next
    case False
    with a t have q: "q = fail r" and s1: "s1 = sa" by (simp_all add: seq_def)
    from fl [OF False] q nf s1 have fs: "f = sa" by simp
    have "later sa f" by (simp add: fs)
    from replaysD [OF T t this cl ag _ k e] fs
    obtain sa' where "T s' = (r, sa')" "\<forall>p. kind (sa' p) = kind (f p)"
      "\<forall>p. sa' p = f p \<or> sa' p = sa p" by auto
    with False q s1 show ?thesis by (auto simp: seq_def)
  qed
qed

lemma grows_createSymlink: "W l \<Longrightarrow> grows W (createSymlink t l k)"
  by (auto simp: grows_def later_def agreeOutside_def createSymlink_def
      split: option.splits fsnode.splits)

lemma replays_createSymlink: "replays W R (\<lambda>r. r = None) (createSymlink t l k)"
  unfolding replays_def
proof (intro allI impI)
  fix s r s1 f s'
  assume a: "createSymlink t l k s = (r, s1)" and lf: "later s1 f"
    and nf: "r \<noteq> None \<longrightarrow> f = s1"
    and kk: "\<forall>p. kind (s' p) = kind (f p)" and e: "\<forall>p. s' p = f p \<or> s' p = s p"
  show "\<exists>s1'. createSymlink t l k s' = (r, s1') \<and> (\<forall>p. kind (s1' p) = kind (f p)) \<and>
                (\<forall>p. s1' p = f p \<or> s1' p = s1 p)"
  proof (cases r)
    case None
    with a have s1: "s1 = s(l \<mapsto> SymlinkNode t)"
      by (auto simp: createSymlink_def split: option.splits fsnode.splits)
    with lf have "kind (f l) = 2" by (simp add: later_def)
    with kk have "kind (s' l) = 2" by simp
    then obtain x where x: "s' l = Some (SymlinkNode x)" by (auto simp: kind_2)
    then have c: "createSymlink t l k s' = (None, s'(l \<mapsto> SymlinkNode t))"
      by (simp add: createSymlink_def)
    have "\<forall>p. kind ((s'(l \<mapsto> SymlinkNode t)) p) = kind (f p)"
      using kk \<open>kind (f l) = 2\<close> by simp
    moreover have "\<forall>p. (s'(l \<mapsto> SymlinkNode t)) p = f p \<or> (s'(l \<mapsto> SymlinkNode t)) p = s1 p"
      using e s1 by simp
    ultimately show ?thesis using c None by blast
  next
    case (Some err)
    with a have "s1 = s" by (auto simp: createSymlink_def split: option.splits fsnode.splits)
    with nf Some have "f = s" by simp
    with e have "s' = s" by (intro ext) auto
    with a \<open>s1 = s\<close> \<open>f = s\<close> show ?thesis by simp
  qed
qed

lemma later_createFolder: "later s (createFolder p s)"
  by (auto simp: later_def createFolder_def split: option.splits)

lemma grows_createFolder: "W p \<Longrightarrow> grows W (\<lambda>s. (None :: error option, createFolder p s))"
  unfolding grows_def
proof (intro allI impI conjI)
  fix s and r :: "error option" and s1
  assume w: "W p" and "(None, createFolder p s) = (r, s1)"
  then have s1: "s1 = createFolder p s" by simp
  show "later s s1" by (simp add: s1 later_createFolder)
  show "agreeOutside W s s1"
    using w by (auto simp: s1 agreeOutside_def createFolder_def split: option.splits)
qed

lemma replays_createFolder:
  "replays W R (\<lambda>r. r = None) (\<lambda>s. (None :: error option, createFolder p s))"
  unfolding replays_def
proof (intro allI impI)
  fix s and r :: "error option" and s1 f s'
  assume a: "(None, createFolder p s) = (r, s1)" and lf: "later s1 f"
    and kk: "\<forall>q. kind (s' q) = kind (f q)" and e: "\<forall>q. s' q = f q \<or> s' q = s q"
  from a have r: "r = None" and s1: "s1 = createFolder p s" by simp_all
  have "s1 p \<noteq> None" by (simp add: s1 createFolder_def split: option.splits)
  with lf have "f p \<noteq> None" unfolding later_def by (metis kind_0)
  with kk have sp: "s' p \<noteq> None" by (metis kind_0)
  then have c: "createFolder p s' = s'" by (auto simp: createFolder_def)
  have "s' q = f q \<or> s' q = s1 q" for q
  proof (cases "q = p \<and> s p = None")
    case True
    with e sp show ?thesis by metis
  next
    case False
    then have "s1 q = s q" by (auto simp: s1 createFolder_def split: option.splits)
    with e show ?thesis by simp
  qed
  with c r kk show "\<exists>s1'. (None, createFolder p s') = (r, s1') \<and> (\<forall>q. kind (s1' q) = kind (f q)) \<and>
                (\<forall>q. s1' q = f q \<or> s1' q = s1 q)"
    by simp
qed

lemma replays_return: "replays W R ok (\<lambda>s. (r0, s))"
  unfolding replays_def by auto

lemma grows_return: "grows W (\<lambda>s. (r0, s))"
  by (simp add: grows_def)

lemma createSymlinksForChildren_seq:
  "createSymlinksForChildren (child # rest) =
     seq (\<lambda>r. r = None) (createSymlinksForDependencies child)
       (\<lambda>_. createSymlinksForChildren rest) id"
  by (rule ext) (auto simp: seq_def split: prod.splits option.splits)

lemma createSymlinksForChildren_Nil: "createSymlinksForChildren [] = (\<lambda>s. (None, s))"
  by (rule ext) simp

lemma createSymlinksForDependencies_link:
  "symlinkTargetFolderPath c = Some t \<Longrightarrow>
   createSymlinksForDependencies c = createSymlink t (folderPath c) Directory"
  by (rule ext) (simp add: createSymlinksForDependencies_target)

lemma grows_children:
  "\<forall>c \<in> set cs. symlinkTargetFolderPath c \<noteq> None \<and> W (folderPath c) \<Longrightarrow>
   grows W (createSymlinksForChildren cs)"
proof (induction cs)
  case Nil
  show ?case by (simp add: createSymlinksForChildren_Nil grows_return)
next
  case (Cons c cs)
  from Cons.prems obtain t where t: "symlinkTargetFolderPath c = Some t" and w: "W (folderPath c)"
    by auto
  have "grows W (createSymlinksForDependencies c)"
    by (simp add: createSymlinksForDependencies_link [OF t] grows_createSymlink [where W = W and l = "folderPath c", OF w])
  moreover have "grows W (createSymlinksForChildren cs)" using Cons by simp
  ultimately show ?case by (simp add: createSymlinksForChildren_seq grows_seq)
qed

lemma replays_children:
  "\<forall>c \<in> set cs. symlinkTargetFolderPath c \<noteq> None \<and> W (folderPath c) \<Longrightarrow>
   replays W R (\<lambda>r. r = None) (createSymlinksForChildren cs)"
proof (induction cs)
  case Nil
  show ?case by (simp add: createSymlinksForChildren_Nil replays_return)
next
  case (Cons c cs)
  from Cons.prems obtain t where t: "symlinkTargetFolderPath c = Some t" and w: "W (folderPath c)"
    by auto
  have g: "grows W (createSymlinksForDependencies c)"
    by (simp add: createSymlinksForDependencies_link [OF t] grows_createSymlink [where W = W and l = "folderPath c", OF w])
  have r: "replays W R (\<lambda>r. r = None) (createSymlinksForDependencies c)"
    by (simp add: createSymlinksForDependencies_link [OF t] replays_createSymlink)
  have gs: "grows W (createSymlinksForChildren cs)" using Cons.prems by (simp add: grows_children)
  have rs: "replays W R (\<lambda>r. r = None) (createSymlinksForChildren cs)" using Cons by simp
  show ?case
    unfolding createSymlinksForChildren_seq
    by (intro replays_seq g r gs rs) simp
qed

lemma underNodeModules_folder: "underNodeModules f (path_join [f, ''node_modules''])"
  by (simp add: underNodeModules_def)

lemma underNodeModules_child: "underNodeModules f (path_join [f, ''node_modules'', d])"
  by (simp add: underNodeModules_def)

lemma createSymlinksForTopLevelProject_seq:
  "createSymlinksForTopLevelProject localPackage =
     (if children localPackage = [] then (\<lambda>s. (None, s))
      else seq (\<lambda>r. r = None)
             (\<lambda>s. (None, createFolder (path_join [folderPath localPackage, ''node_modules'']) s))
             (\<lambda>_. createSymlinksForChildren (children localPackage)) id)"
  by (rule ext) (simp add: createSymlinksForTopLevelProject_def seq_def del: path_join.simps)

lemma rootWith_children_within:
  assumes "\<forall>d \<in> set (rkeys pj). getProjectByName cfg d \<noteq> None"
    and "\<And>q. underNodeModules (projectFolder project) q \<Longrightarrow> W q"
  shows "\<forall>c \<in> set (children (rootWith cfg project pj)).
           symlinkTargetFolderPath c \<noteq> None \<and> W (folderPath c)"
proof
  fix c assume c: "c \<in> set (children (rootWith cfg project pj))"
  from rootWith_children_target [OF assms(1) c] have "symlinkTargetFolderPath c \<noteq> None" .
  moreover have "W (folderPath c)"
    unfolding rootWith_children_folder [OF c] by (rule assms(2)) (rule underNodeModules_child)
  ultimately show "symlinkTargetFolderPath c \<noteq> None \<and> W (folderPath c)" by simp
qed

lemma grows_top:
  assumes "\<forall>d \<in> set (rkeys pj). getProjectByName cfg d \<noteq> None"
    and "\<And>q. underNodeModules (projectFolder project) q \<Longrightarrow> W q"
  shows "grows W (createSymlinksForTopLevelProject (rootWith cfg project pj))"
proof -
  have f: "W (path_join [projectFolder project, ''node_modules''])"
    by (rule assms(2)) (rule underNodeModules_folder)
  note w = rootWith_children_within [where W = W, OF assms]
  have "grows W (seq (\<lambda>r. r = None)
             (\<lambda>s. (None, createFolder (path_join [folderPath (rootWith cfg project pj), ''node_modules'']) s))
             (\<lambda>_. createSymlinksForChildren (children (rootWith cfg project pj))) id)"
    by (intro grows_seq grows_createFolder grows_children w) (simp add: f del: path_join.simps)
  then show ?thesis
    by (simp add: createSymlinksForTopLevelProject_seq grows_return del: rootWith_sel path_join.simps)
qed

lemma replays_top:
  assumes "\<forall>d \<in> set (rkeys pj). getProjectByName cfg d \<noteq> None"
    and "\<And>q. underNodeModules (projectFolder project) q \<Longrightarrow> W q"
  shows "replays W R (\<lambda>r. r = None) (createSymlinksForTopLevelProject (rootWith cfg project pj))"
proof (cases "children (rootWith cfg project pj) = []")
  case True
  then have "createSymlinksForTopLevelProject (rootWith cfg project pj) = (\<lambda>s. (None, s))"
    by (simp add: createSymlinksForTopLevelProject_seq del: rootWith_sel(4))
  then show ?thesis by (simp only: replays_return)
next
  case False
  have f: "W (path_join [projectFolder project, ''node_modules''])"
    by (rule assms(2)) (rule underNodeModules_folder)
  note w = rootWith_children_within [where W = W, OF assms]
  have "replays W R (\<lambda>r. r = None)
      (seq (\<lambda>r. r = None)
             (\<lambda>s. (None, createFolder (path_join [folderPath (rootWith cfg project pj), ''node_modules'']) s))
             (\<lambda>_. createSymlinksForChildren (children (rootWith cfg project pj))) id)"
    by (intro replays_seq replays_createFolder grows_createFolder replays_children grows_children w)
      (simp_all add: f del: path_join.simps)
  moreover from False have "createSymlinksForTopLevelProject (rootWith cfg project pj) =
      seq (\<lambda>r. r = None)
             (\<lambda>s. (None, createFolder (path_join [folderPath (rootWith cfg project pj), ''node_modules'']) s))
             (\<lambda>_. createSymlinksForChildren (children (rootWith cfg project pj))) id"
    by (simp add: createSymlinksForTopLevelProject_seq del: rootWith_sel path_join.simps)
  ultimately show ?thesis by simp
qed

lemma grows_read: "grows W (\<lambda>s. (g s, s))"
  by (simp add: grows_def)

lemma replays_build:
  assumes "\<And>pj d. files (tempPackageJsonFilename cfg project) = Some pj \<Longrightarrow> d \<in> set (dkeys pj) \<Longrightarrow>
             R (path_join [pathToLocalInstallation cfg project, d])"
  shows "replays W R (\<lambda>r. \<not> isl r) (\<lambda>s. (buildLocalPackage cfg files project j s, s))"
  unfolding replays_def
proof (intro allI impI)
  fix s r s1 f s'
  assume a: "(buildLocalPackage cfg files project j s, s) = (r, s1)" and lf: "later s1 f"
    and cl: "clearAt W R s" and ag: "agreeOutside W s f"
    and kk: "\<forall>p. kind (s' p) = kind (f p)" and e: "\<forall>p. s' p = f p \<or> s' p = s p"
  from a have r: "r = buildLocalPackage cfg files project j s" and s1: "s1 = s" by auto
  have "buildLocalPackage cfg files project j s' = buildLocalPackage cfg files project j s"
  proof (cases "files (tempPackageJsonFilename cfg project)")
    case None
    then show ?thesis by (simp add: buildLocalPackage_None)
  next
    case (Some pj)
    have "linkDependencies files s' (pathToLocalInstallation cfg project) (dkeys pj) lp =
          linkDependencies files s (pathToLocalInstallation cfg project) (dkeys pj) lp" for lp
    proof (rule linkDependencies_cong)
      fix d assume "d \<in> set (dkeys pj)"
      from assms [OF Some this] have rd: "R (path_join [pathToLocalInstallation cfg project, d])" .
      from read_stable [OF cl ag e rd]
      show "existsSync s' (path_join [pathToLocalInstallation cfg project, d]) =
              existsSync s (path_join [pathToLocalInstallation cfg project, d]) \<and>
            isLink s' (path_join [pathToLocalInstallation cfg project, d]) =
              isLink s (path_join [pathToLocalInstallation cfg project, d])"
        by (simp add: isLink_def del: path_join.simps)
    qed
    then show ?thesis
      by (simp add: buildLocalPackage_Some [where files = files, OF Some] split: sum.splits prod.splits)
  qed
  with r kk e s1 show "\<exists>s1'. (buildLocalPackage cfg files project j s', s') = (r, s1') \<and>
      (\<forall>p. kind (s1' p) = kind (f p)) \<and> (\<forall>p. s1' p = f p \<or> s1' p = s1 p)"
    by simp
qed

lemma replays_when_exists:
  assumes T: "replays W R ok T" and c: "R c"
  shows "replays W R ok (\<lambda>s. if existsSync s c then T s else (r0, s))"
  unfolding replays_def
proof (intro allI impI)
  fix s r s1 f s'
  assume a: "(if existsSync s c then T s else (r0, s)) = (r, s1)" and lf: "later s1 f"
    and cl: "clearAt W R s" and ag: "agreeOutside W s f" and nf: "\<not> ok r \<longrightarrow> f = s1"
    and kk: "\<forall>p. kind (s' p) = kind (f p)" and e: "\<forall>p. s' p = f p \<or> s' p = s p"
  from read_stable(2) [OF cl ag e c] have ex: "existsSync s' c = existsSync s c" .
  show "\<exists>s1'. (if existsSync s' c then T s' else (r0, s')) = (r, s1') \<and>
      (\<forall>p. kind (s1' p) = kind (f p)) \<and> (\<forall>p. s1' p = f p \<or> s1' p = s1 p)"
  proof (cases "existsSync s c")
    case False
    with a have "r = r0" "s1 = s" by simp_all
    with False ex kk e show ?thesis by simp
  next
    case True
    with a have t: "T s = (r, s1)" by simp
    from replaysD [OF T t lf cl ag nf kk e] True ex show ?thesis by simp
  qed
qed

lemma grows_when_exists: "grows W T \<Longrightarrow> grows W (\<lambda>s. if existsSync s c then T s else (r0, s))"
  by (auto simp: grows_def)

lemma linkProject_seq:
  assumes "files (tempPackageJsonFilename cfg project) = Some pj"
  shows "linkProject cfg files project j =
     seq (\<lambda>r. \<not> isl r) (\<lambda>s. (buildLocalPackage cfg files project j s, s))
       (\<lambda>_. seq (\<lambda>r. r = None) (createSymlinksForTopLevelProject (rootWith cfg project pj))
              (\<lambda>_ s. if existsSync s (path_join [commonTempFolder cfg, ''node_modules'', ''.bin''])
                      then seq (\<lambda>r. r = None)
                             (createSymlink (path_join [commonTempFolder cfg, ''node_modules'', ''.bin''])
                                (path_join [projectFolder project, ''node_modules'', ''.bin''])
                                Directory)
                             (\<lambda>_ s. (Inr (appendLinks (pname project) (rkeys pj) j), s))
                             (\<lambda>e. Inl (the e)) s
                      else (Inr (appendLinks (pname project) (rkeys pj) j), s))
              (\<lambda>e. Inl (the e)))
       (\<lambda>r. Inl (projl r))"
proof (rule ext)
  fix s
  show "linkProject cfg files project j s =
     seq (\<lambda>r. \<not> isl r) (\<lambda>s. (buildLocalPackage cfg files project j s, s))
       (\<lambda>_. seq (\<lambda>r. r = None) (createSymlinksForTopLevelProject (rootWith cfg project pj))
              (\<lambda>_ s. if existsSync s (path_join [commonTempFolder cfg, ''node_modules'', ''.bin''])
                      then seq (\<lambda>r. r = None)
                             (createSymlink (path_join [commonTempFolder cfg, ''node_modules'', ''.bin''])
                                (path_join [projectFolder project, ''node_modules'', ''.bin''])
                                Directory)
                             (\<lambda>_ s. (Inr (appendLinks (pname project) (rkeys pj) j), s))
                             (\<lambda>e. Inl (the e)) s
                      else (Inr (appendLinks (pname project) (rkeys pj) j), s))
              (\<lambda>e. Inl (the e)))
       (\<lambda>r. Inl (projl r)) s"
  proof (cases "buildLocalPackage cfg files project j s")
    case (Inl e)
    then show ?thesis by (simp add: linkProject_def seq_def)
  next
    case (Inr x)
    obtain lp j' where x: "x = (lp, j')" by (cases x)
    from Inr x assms have "lp = rootWith cfg project pj" "j' = appendLinks (pname project) (rkeys pj) j"
      by (auto simp: buildLocalPackage_Inr_iff simp del: path_join.simps)
    with Inr x show ?thesis
      by (auto simp: linkProject_def seq_def Let_def simp del: path_join.simps
          split: prod.splits option.splits)
  qed
qed

lemma linkProject_constant:
  assumes "\<forall>pj. files (tempPackageJsonFilename cfg project) = Some pj \<longrightarrow>
             \<not> (\<forall>d \<in> set (rkeys pj). getProjectByName cfg d \<noteq> None)"
  shows "\<exists>e. linkProject cfg files project j = (\<lambda>s. (Inl e, s))"
proof (cases "files (tempPackageJsonFilename cfg project)")
  case None
  then have "linkProject cfg files project j =
      (\<lambda>s. (Inl (JsonLoadError (tempPackageJsonFilename cfg project)), s))"
    by (intro ext) (simp add: linkProject_def buildLocalPackage_None)
  then show ?thesis by blast
next
  case (Some pj)
  with assms have "\<exists>x \<in> set (rkeys pj). getProjectByName cfg x = None" by simp
  from split_list_first_prop [OF this] obtain pre d post where
    k: "rkeys pj = pre @ d # post" and u: "getProjectByName cfg d = None" and
    m: "\<forall>x \<in> set pre. getProjectByName cfg x \<noteq> None" by auto
  have "linkProject cfg files project j =
      (\<lambda>s. (Inl (if pre \<noteq> [] \<and> inherited (pname project) j then PushIsNotAFunction (pname project)
                  else CannotFindDependency d (packageName project)), s))"
    by (intro ext) (simp add: linkProject_def buildLocalPackage_unmatched [where files = files, OF Some k m u])
  then show ?thesis by blast
qed

lemma grows_linkProject:
  assumes "\<And>q. underNodeModules (projectFolder project) q \<Longrightarrow> W q"
  shows "grows W (linkProject cfg files project j)"
proof (cases "\<exists>pj. files (tempPackageJsonFilename cfg project) = Some pj \<and>
                (\<forall>d \<in> set (rkeys pj). getProjectByName cfg d \<noteq> None)")
  case True
  then obtain pj where pj: "files (tempPackageJsonFilename cfg project) = Some pj"
    and m: "\<forall>d \<in> set (rkeys pj). getProjectByName cfg d \<noteq> None" by blast
  have b: "W (path_join [projectFolder project, ''node_modules'', ''.bin''])"
    by (rule assms) (rule underNodeModules_child)
  show ?thesis
    unfolding linkProject_seq [where files = files, OF pj]
    by (intro grows_seq grows_when_exists grows_top [OF m assms] grows_createSymlink [where W = W, OF b]
        grows_return grows_read)
next
  case False
  then have "\<forall>pj. files (tempPackageJsonFilename cfg project) = Some pj \<longrightarrow>
             \<not> (\<forall>d \<in> set (rkeys pj). getProjectByName cfg d \<noteq> None)" by blast
  from linkProject_constant [where files = files, OF this] obtain e where
    "linkProject cfg files project j = (\<lambda>s. (Inl e, s))" by blast
  then show ?thesis by (simp add: grows_return)
qed

lemma replays_linkProject:
  assumes w: "\<And>q. underNodeModules (projectFolder project) q \<Longrightarrow> W q"
    and rd: "\<And>pj d. files (tempPackageJsonFilename cfg project) = Some pj \<Longrightarrow> d \<in> set (dkeys pj) \<Longrightarrow>
             R (path_join [pathToLocalInstallation cfg project, d])"
    and rb: "R (path_join [commonTempFolder cfg, ''node_modules'', ''.bin''])"
  shows "replays W R (\<lambda>r. \<not> isl r) (linkProject cfg files project j)"
proof (cases "\<exists>pj. files (tempPackageJsonFilename cfg project) = Some pj \<and>
                (\<forall>d \<in> set (rkeys pj). getProjectByName cfg d \<noteq> None)")
  case True
  then obtain pj where pj: "files (tempPackageJsonFilename cfg project) = Some pj"
    and m: "\<forall>d \<in> set (rkeys pj). getProjectByName cfg d \<noteq> None" by blast
  have b: "W (path_join [projectFolder project, ''node_modules'', ''.bin''])"
    by (rule w) (rule underNodeModules_child)
  show ?thesis
    unfolding linkProject_seq [where files = files, OF pj]
    by (intro replays_seq grows_seq replays_when_exists [where R = R, OF _ rb] grows_when_exists
        replays_build [where files = files and R = R, OF rd] replays_top [OF m w] grows_top [OF m w]
        replays_createSymlink grows_createSymlink [where W = W, OF b] replays_return grows_return grows_read)
      simp_all
next
  case False
  then have "\<forall>pj. files (tempPackageJsonFilename cfg project) = Some pj \<longrightarrow>
             \<not> (\<forall>d \<in> set (rkeys pj). getProjectByName cfg d \<noteq> None)" by blast
  from linkProject_constant [where files = files, OF this] obtain e where
    "linkProject cfg files project j = (\<lambda>s. (Inl e, s))" by blast
  then show ?thesis by (simp add: replays_return)
qed

lemma linkAll_seq:
  "linkAll cfg files (p # ps) j =
     seq (\<lambda>r. \<not> isl r) (linkProject cfg files p j) (\<lambda>r. linkAll cfg files ps (projr r))
       (\<lambda>r. Inl (projl r))"
  by (rule ext) (auto simp: seq_def split: sum.splits prod.splits)

lemma linkAll_Nil: "linkAll cfg files [] j = (\<lambda>s. (Inr j, s))"
  by (rule ext) simp

lemma grows_linkAll:
  "(\<And>p q. p \<in> set ps \<Longrightarrow> underNodeModules (projectFolder p) q \<Longrightarrow> W q) \<Longrightarrow>
   grows W (linkAll cfg files ps j)"
proof (induction ps arbitrary: j)
  case Nil
  show ?case by (simp add: linkAll_Nil grows_return)
next
  case (Cons p ps)
  have 1: "grows W (linkProject cfg files p j)"
    by (rule grows_linkProject) (rule Cons.prems [of p], simp_all)
  have 2: "grows W (linkAll cfg files ps j1)" for j1
  proof (rule Cons.IH)
    show "W q" if "p' \<in> set ps" "underNodeModules (projectFolder p') q" for p' q
      using that by (intro Cons.prems [of p' q]) simp_all
  qed
  show ?case unfolding linkAll_seq by (intro grows_seq 1 2)
qed

lemma replays_linkAll:
  assumes w: "\<And>p q. p \<in> set ps \<Longrightarrow> underNodeModules (projectFolder p) q \<Longrightarrow> W q"
    and rd: "\<And>p pj d. p \<in> set ps \<Longrightarrow> files (tempPackageJsonFilename cfg p) = Some pj \<Longrightarrow>
               d \<in> set (dkeys pj) \<Longrightarrow> R (path_join [pathToLocalInstallation cfg p, d])"
    and rb: "R (path_join [commonTempFolder cfg, ''node_modules'', ''.bin''])"
  shows "replays W R (\<lambda>r. \<not> isl r) (linkAll cfg files ps j)"
  using w rd
proof (induction ps arbitrary: j)
  case Nil
  show ?case by (simp add: linkAll_Nil replays_return del: path_join.simps)
next
  case (Cons p ps)
  have g1: "grows W (linkProject cfg files p j)"
    by (rule grows_linkProject) (rule Cons.prems(1) [of p], simp_all)
  have g2: "grows W (linkAll cfg files ps j1)" for j1
  proof (rule grows_linkAll)
    show "W q" if "p' \<in> set ps" "underNodeModules (projectFolder p') q" for p' q
      using that by (intro Cons.prems(1) [of p' q]) simp_all
  qed
  have r1: "replays W R (\<lambda>r. \<not> isl r) (linkProject cfg files p j)"
  proof (rule replays_linkProject [where R = R and W = W, OF _ _ rb])
    show "\<And>q. underNodeModules (projectFolder p) q \<Longrightarrow> W q"
      by (rule Cons.prems(1) [of p]) simp_all
    show "R (path_join [pathToLocalInstallation cfg p, d])"
      if "files (tempPackageJsonFilename cfg p) = Some pj" "d \<in> set (dkeys pj)" for pj d
      using that by (intro Cons.prems(2) [of p pj d]) simp_all
  qed
  have r2: "replays W R (\<lambda>r. \<not> isl r) (linkAll cfg files ps j1)" for j1
  proof (rule Cons.IH)
    show "W q" if "p' \<in> set ps" "underNodeModules (projectFolder p') q" for p' q
      using that by (intro Cons.prems(1) [of p' q]) simp_all
    show "R (path_join [pathToLocalInstallation cfg p', d])"
      if "p' \<in> set ps" "files (tempPackageJsonFilename cfg p') = Some pj" "d \<in> set (dkeys pj)"
      for p' pj d
      using that by (intro Cons.prems(2) [of p' pj d]) simp_all
  qed
  show ?case
    unfolding linkAll_seq
    by (intro replays_seq r1 g1 r2 g2) simp
qed

section \<open>Ordinary dependencies and the backend's links\<close>




section \<open>The check of the backend's install location\<close>






section \<open>Children with distinct names\<close>





section \<open>The shape of the tree\<close>

text \<open>
  Claim C8.  In the tree built for a project the root has no symlink target and stands
  for the project's folder; every other node is a child of the root, has a symlink
  target and no children, so there is no node below depth 1.  A node with a symlink
  target is projected as the one link at its folder, whatever its children are: they
  are not walked.
\<close>

theorem tree_has_depth_one:
  assumes "buildLocalPackage cfg files project j s = Inr (localPackage, j')"
  shows "symlinkTargetFolderPath localPackage = None \<and>
         folderPath localPackage = projectFolder project \<and>
         (\<forall>c \<in> set (children localPackage).
            symlinkTargetFolderPath c \<noteq> None \<and> children c = []) \<and>
         (\<forall>n v folder target pj cs s0.
            createSymlinksForDependencies (BasePackage n v folder (Some target) pj cs) s0 =
              createSymlink target folder Directory s0)"
proof -
  from assms obtain pj where
    lp: "localPackage = rootWith cfg project pj" and
    m: "\<forall>d \<in> set (rkeys pj). getProjectByName cfg d \<noteq> None"
    by (auto simp: buildLocalPackage_Inr_iff simp del: path_join.simps)
  have "\<forall>c \<in> set (children (rootWith cfg project pj)).
          symlinkTargetFolderPath c \<noteq> None \<and> children c = []"
    using m by (auto simp del: path_join.simps)
  then show ?thesis by (simp add: lp del: rootWith_sel(4))
qed

theorem tree_has_depth_one_witness:
  "\<exists>localPackage j'.
     buildLocalPackage exampleConfiguration (packageJsonFiles exampleWorld) projectA
       \<lparr>localLinks = Map.empty\<rparr> (entries exampleWorld) = Inr (localPackage, j') \<and>
     symlinkTargetFolderPath localPackage = None \<and>
     folderPath localPackage = ''/tools/a'' \<and>
     map name_pkg (children localPackage) = [''b'', ''lodash''] \<and>
     (\<forall>c \<in> set (children localPackage). symlinkTargetFolderPath c \<noteq> None \<and> children c = [])"
proof -
  have "case buildLocalPackage exampleConfiguration (packageJsonFiles exampleWorld) projectA
        \<lparr>localLinks = Map.empty\<rparr> (entries exampleWorld) of
          Inl _ \<Rightarrow> False
        | Inr (lp, _) \<Rightarrow> map name_pkg (children lp) = [''b'', ''lodash'']"
    by code_simp
  then obtain localPackage j' where
    ok: "buildLocalPackage exampleConfiguration (packageJsonFiles exampleWorld) projectA
        \<lparr>localLinks = Map.empty\<rparr> (entries exampleWorld) = Inr (localPackage, j')" and
    ns: "map name_pkg (children localPackage) = [''b'', ''lodash'']"
    by (auto split: sum.splits)
  have f: "projectFolder projectA = ''/tools/a''" by (simp add: projectA_def)
  from tree_has_depth_one [OF ok] ok ns show ?thesis
    unfolding f by (intro exI [of _ localPackage] exI [of _ j']) simp
qed

section \<open>The diagnostic read\<close>

lemma linkDependencies_files:
  "linkDependencies files1 s pli ds lp = linkDependencies files2 s pli ds lp"
proof (induction ds arbitrary: lp)
  case Nil
  show ?case by simp
next
  case (Cons d ds)
  show ?case by (simp add: linkDependencies_step Cons.IH del: path_join.simps)
qed

lemma buildLocalPackage_files:
  assumes "files1 (tempPackageJsonFilename cfg project) = files2 (tempPackageJsonFilename cfg project)"
  shows "buildLocalPackage cfg files1 project j s = buildLocalPackage cfg files2 project j s"
proof (cases "files1 (tempPackageJsonFilename cfg project)")
  case None
  with assms show ?thesis by (simp add: buildLocalPackage_None)
next
  case (Some pj)
  with assms have "files2 (tempPackageJsonFilename cfg project) = Some pj" by simp
  with Some show ?thesis
    using linkDependencies_files [of files1 s "pathToLocalInstallation cfg project" "dkeys pj" _ files2]
    by (auto simp: buildLocalPackage_Some split: sum.splits)
qed

lemma linkProject_files:
  assumes "files1 (tempPackageJsonFilename cfg project) = files2 (tempPackageJsonFilename cfg project)"
  shows "linkProject cfg files1 project j s = linkProject cfg files2 project j s"
  by (simp add: linkProject_def
      buildLocalPackage_files [where ?files1.0 = files1 and ?files2.0 = files2, OF assms])

lemma linkAll_files:
  "\<forall>p \<in> set ps. files1 (tempPackageJsonFilename cfg p) = files2 (tempPackageJsonFilename cfg p) \<Longrightarrow>
   linkAll cfg files1 ps j s = linkAll cfg files2 ps j s"
proof (induction ps arbitrary: j s)
  case Nil
  show ?case by simp
next
  case (Cons p ps)
  then have p: "files1 (tempPackageJsonFilename cfg p) = files2 (tempPackageJsonFilename cfg p)"
    and r: "\<forall>p \<in> set ps. files1 (tempPackageJsonFilename cfg p) = files2 (tempPackageJsonFilename cfg p)"
    by simp_all
  show ?case
    by (simp add: linkProject_files [where ?files1.0 = files1 and ?files2.0 = files2, OF p]
        Cons.IH [OF r] split: prod.splits sum.splits)
qed

text \<open>
  Claim C9.  The flag is off.  Two runs on worlds that agree except for the contents of
  \<^verbatim>\<open>package.json\<close> files other than the staging manifests of the projects (so, in
  particular, for the manifests of the installed dependencies) end with the same
  result, the same entries on the disk and the same saved link manifest: a dependency's
  own manifest is not consulted.  The node of every ordinary dependency is made with
  the version undefined.
\<close>

theorem dependency_manifests_not_consulted:
  assumes "\<forall>p \<in> set (projects cfg).
             packageJsonFiles w1 (tempPackageJsonFilename cfg p) =
             packageJsonFiles w2 (tempPackageJsonFilename cfg p)"
    and "entries w1 = entries w2"
    and "saved w1 = saved w2"
  shows "\<not> DEBUG \<and>
         fst (linkProjects cfg w1) = fst (linkProjects cfg w2) \<and>
         entries (snd (linkProjects cfg w1)) = entries (snd (linkProjects cfg w2)) \<and>
         saved (snd (linkProjects cfg w1)) = saved (snd (linkProjects cfg w2)) \<and>
         (\<forall>p j s localPackage j' pj.
            buildLocalPackage cfg (packageJsonFiles w1) p j s = Inr (localPackage, j') \<and>
            packageJsonFiles w1 (tempPackageJsonFilename cfg p) = Some pj \<longrightarrow>
            (\<forall>c \<in> set (children localPackage).
               name_pkg c \<in> set (Object_keys (dependencies pj)) \<longrightarrow> version_pkg c = None))"
proof -
  have la: "linkAll cfg (packageJsonFiles w1) (projects cfg) \<lparr>localLinks = Map.empty\<rparr> (entries w1) =
            linkAll cfg (packageJsonFiles w2) (projects cfg) \<lparr>localLinks = Map.empty\<rparr> (entries w2)"
    using linkAll_files [where ?files1.0 = "packageJsonFiles w1" and ?files2.0 = "packageJsonFiles w2",
        OF assms(1)] assms(2) by simp
  have run: "fst (linkProjects cfg w1) = fst (linkProjects cfg w2) \<and>
         entries (snd (linkProjects cfg w1)) = entries (snd (linkProjects cfg w2)) \<and>
         saved (snd (linkProjects cfg w1)) = saved (snd (linkProjects cfg w2))"
    by (simp add: linkProjects_def la assms(3) JsonFile_save_def split: prod.splits sum.splits)
  have ver: "version_pkg c = None"
    if b: "buildLocalPackage cfg (packageJsonFiles w1) p j s = Inr (localPackage, j')"
      and pj: "packageJsonFiles w1 (tempPackageJsonFilename cfg p) = Some pj"
      and c: "c \<in> set (children localPackage)"
      and n: "name_pkg c \<in> set (Object_keys (dependencies pj))"
    for p j s localPackage j' pj c
  proof -
    from b pj have lp: "localPackage = rootWith cfg p pj" and
      dj: "set (dkeys pj) \<inter> set (rkeys pj) = {}"
      by (auto simp: buildLocalPackage_Inr_iff simp del: path_join.simps)
    from n have "name_pkg c \<notin> set (rkeys pj)" using dj by (auto simp: dkeys_def)
    with c show ?thesis unfolding lp by (auto simp del: path_join.simps)
  qed
  have "\<not> DEBUG" by (simp add: DEBUG_def)
  with run ver show ?thesis by blast
qed

theorem dependency_manifests_not_consulted_witness:
  "packageJsonFiles exampleWorld
     ''/temp/node_modules/.local/%2Ftemp%2Fprojects%2Fa.tgz/node_modules/lodash/package.json'' \<noteq>
   packageJsonFiles (exampleWorld\<lparr>packageJsonFiles := filesWithLodashManifest\<rparr>)
     ''/temp/node_modules/.local/%2Ftemp%2Fprojects%2Fa.tgz/node_modules/lodash/package.json'' \<and>
   fst (linkProjects exampleConfiguration exampleWorld) =
     fst (linkProjects exampleConfiguration (exampleWorld\<lparr>packageJsonFiles := filesWithLodashManifest\<rparr>)) \<and>
   entries (snd (linkProjects exampleConfiguration exampleWorld)) =
     entries (snd (linkProjects exampleConfiguration
                     (exampleWorld\<lparr>packageJsonFiles := filesWithLodashManifest\<rparr>))) \<and>
   saved (snd (linkProjects exampleConfiguration exampleWorld)) =
     saved (snd (linkProjects exampleConfiguration
                   (exampleWorld\<lparr>packageJsonFiles := filesWithLodashManifest\<rparr>)))"
proof -
  let ?w2 = "exampleWorld\<lparr>packageJsonFiles := filesWithLodashManifest\<rparr>"
  have h: "\<forall>p \<in> set (projects exampleConfiguration).
             packageJsonFiles exampleWorld (tempPackageJsonFilename exampleConfiguration p) =
             packageJsonFiles ?w2 (tempPackageJsonFilename exampleConfiguration p)"
    by code_simp
  have d: "packageJsonFiles exampleWorld
     ''/temp/node_modules/.local/%2Ftemp%2Fprojects%2Fa.tgz/node_modules/lodash/package.json'' \<noteq>
     packageJsonFiles ?w2
     ''/temp/node_modules/.local/%2Ftemp%2Fprojects%2Fa.tgz/node_modules/lodash/package.json''"
    by code_simp
  have e: "entries exampleWorld = entries ?w2" "saved exampleWorld = saved ?w2" by simp_all
  from dependency_manifests_not_consulted [OF h e] d show ?thesis by blast
qed

section \<open>The run: one save, after the last project\<close>

lemma linkAll_Inl_split:
  "fst (linkAll cfg files ps j s) = Inl e \<Longrightarrow>
   \<exists>pre p post j1 s1. ps = pre @ p # post \<and> linkAll cfg files pre j s = (Inr j1, s1) \<and>
      linkProject cfg files p j1 s1 = (Inl e, snd (linkAll cfg files ps j s))"
proof (induction ps arbitrary: j s)
  case Nil
  then show ?case by simp
next
  case (Cons q ps)
  show ?case
  proof (cases "linkProject cfg files q j s")
    case (Pair r s1)
    show ?thesis
    proof (cases r)
      case (Inl e')
      with Pair Cons.prems have "e' = e" by simp
      with Pair Inl have "(q # ps) = [] @ q # ps \<and> linkAll cfg files [] j s = (Inr j, s) \<and>
          linkProject cfg files q j s = (Inl e, snd (linkAll cfg files (q # ps) j s))"
        by simp
      then show ?thesis by blast
    next
      case (Inr j1)
      with Pair have eq: "linkAll cfg files (q # ps) j s = linkAll cfg files ps j1 s1" by simp
      with Cons.prems have "fst (linkAll cfg files ps j1 s1) = Inl e" by simp
      from Cons.IH [OF this] obtain pre p post j2 s2 where
        ps: "ps = pre @ p # post" and
        pre: "linkAll cfg files pre j1 s1 = (Inr j2, s2)" and
        p: "linkProject cfg files p j2 s2 = (Inl e, snd (linkAll cfg files ps j1 s1))"
        by blast
      have "q # ps = (q # pre) @ p # post" using ps by simp
      moreover have "linkAll cfg files (q # pre) j s = (Inr j2, s2)"
        using Pair Inr pre by simp
      moreover have "linkProject cfg files p j2 s2 = (Inl e, snd (linkAll cfg files (q # ps) j s))"
        using p eq by simp
      ultimately show ?thesis by blast
    qed
  qed
qed

lemma linkAll_append:
  "linkAll cfg files (pre @ post) j s =
     (case linkAll cfg files pre j s of
        (Inl e, s1) \<Rightarrow> (Inl e, s1)
      | (Inr j1, s1) \<Rightarrow> linkAll cfg files post j1 s1)"
  by (induction pre arbitrary: j s) (auto split: prod.splits sum.splits)

lemma createSymlink_error:
  "createSymlink t l k s = (Some e, s') \<Longrightarrow> e = FilesystemConflictError l"
  by (auto simp: createSymlink_def split: option.splits fsnode.splits)

lemma createSymlinksForChildren_error:
  "\<forall>c \<in> set cs. symlinkTargetFolderPath c \<noteq> None \<Longrightarrow>
   createSymlinksForChildren cs s = (Some e, s') \<Longrightarrow> \<exists>l. e = FilesystemConflictError l"
proof (induction cs arbitrary: s)
  case Nil
  then show ?case by simp
next
  case (Cons c cs)
  from Cons.prems(1) obtain t where t: "symlinkTargetFolderPath c = Some t" by auto
  obtain r1 s1 where s1: "createSymlink t (folderPath c) Directory s = (r1, s1)"
    by (cases "createSymlink t (folderPath c) Directory s")
  show ?case
  proof (cases r1)
    case None
    with Cons.prems(2) have "createSymlinksForChildren cs s1 = (Some e, s')"
      by (simp add: createSymlinksForDependencies_target [OF t] s1)
    from Cons.IH [OF _ this] Cons.prems(1) show ?thesis by simp
  next
    case (Some e')
    with Cons.prems(2) have "e = e'"
      by (simp add: createSymlinksForDependencies_target [OF t] s1)
    with createSymlink_error s1 Some show ?thesis by blast
  qed
qed

lemma linkProject_Inl_disk:
  assumes "linkProject cfg files project j s = (Inl e, s')"
  shows "s' = s \<or> (\<exists>l. e = FilesystemConflictError l)"
proof (cases "buildLocalPackage cfg files project j s")
  case (Inl e')
  with assms show ?thesis by (simp add: linkProject_def)
next
  case (Inr x)
  obtain lp j' where x: "x = (lp, j')" by (cases x)
  from Inr x obtain pj where lp: "lp = rootWith cfg project pj" and
    m: "\<forall>d \<in> set (rkeys pj). getProjectByName cfg d \<noteq> None"
    by (auto simp: buildLocalPackage_Inr_iff simp del: path_join.simps)
  have all: "\<forall>c \<in> set (children lp). symlinkTargetFolderPath c \<noteq> None"
    unfolding lp using rootWith_children_target [OF m] by blast
  obtain r1 s1 where top: "createSymlinksForTopLevelProject lp s = (r1, s1)"
    by (cases "createSymlinksForTopLevelProject lp s")
  show ?thesis
  proof (cases r1)
    case (Some e')
    with assms Inr x top have "e = e'" by (simp add: linkProject_def)
    moreover from top Some have "\<exists>l. e' = FilesystemConflictError l"
      using createSymlinksForChildren_error [OF all]
      by (auto simp: createSymlinksForTopLevelProject_def simp del: path_join.simps split: if_splits)
    ultimately show ?thesis by simp
  next
    case None
    with assms Inr x top have "\<exists>t l k s2. createSymlink t l k s1 = (Some e, s2)"
      by (auto simp: linkProject_def Let_def simp del: path_join.simps
          split: if_splits prod.splits option.splits)
    with createSymlink_error show ?thesis by blast
  qed
qed

text \<open>
  Claim C3.  A run that resolves has linked every project, in order, and has saved the
  link manifest once, after the last of them: the saved files are those from before
  with the one new manifest in front.  A run is rejected with \<open>e\<close> exactly because
  some project threw \<open>e\<close> after the projects before it had been linked; then nothing
  is saved and the projects after it are not linked.  The disk is then what the
  projects before the failing one had made of it, \<open>s1\<close>, but for what the failing
  project wrote itself: no entry of \<open>s1\<close> is gone or has become of another kind (a
  link is still a link), every path outside the \<^verbatim>\<open>node_modules\<close> folder of the failing
  project has the very entry of \<open>s1\<close>, and when the error is not one of projecting the
  tree onto the disk the disk is \<open>s1\<close> itself.
\<close>

theorem manifest_saved_once_after_all_projects:
  "(fst (linkProjects cfg w) = Inr () \<longrightarrow>
      (\<exists>rushLinkJson.
         linkAll cfg (packageJsonFiles w) (projects cfg) \<lparr>localLinks = Map.empty\<rparr> (entries w) =
           (Inr rushLinkJson, entries (snd (linkProjects cfg w))) \<and>
         saved (snd (linkProjects cfg w)) = (rushLinkJsonFilename cfg, rushLinkJson) # saved w) \<and>
      (\<forall>p \<in> set (projects cfg). \<exists>j s j' s'.
         linkProject cfg (packageJsonFiles w) p j s = (Inr j', s'))) \<and>
   (\<forall>e. fst (linkProjects cfg w) = Inl e \<longrightarrow>
      saved (snd (linkProjects cfg w)) = saved w \<and>
      (\<exists>pre p post j1 s1.
         projects cfg = pre @ p # post \<and>
         linkAll cfg (packageJsonFiles w) pre \<lparr>localLinks = Map.empty\<rparr> (entries w) = (Inr j1, s1) \<and>
         linkProject cfg (packageJsonFiles w) p j1 s1 = (Inl e, entries (snd (linkProjects cfg w))))) \<and>
   (\<forall>pre p post j1 s1 e s2.
      projects cfg = pre @ p # post \<and>
      linkAll cfg (packageJsonFiles w) pre \<lparr>localLinks = Map.empty\<rparr> (entries w) = (Inr j1, s1) \<and>
      linkProject cfg (packageJsonFiles w) p j1 s1 = (Inl e, s2) \<longrightarrow>
      linkProjects cfg w = (Inl e, w\<lparr>entries := s2\<rparr>) \<and>
      later s1 s2 \<and>
      (\<forall>q. \<not> underNodeModules (projectFolder p) q \<longrightarrow> s2 q = s1 q) \<and>
      ((\<forall>l. e \<noteq> FilesystemConflictError l) \<longrightarrow> s2 = s1))"
proof (intro conjI allI impI)
  assume ok: "fst (linkProjects cfg w) = Inr ()"
  from linkProjects_Inr [OF ok] obtain rl where
    la: "linkAll cfg (packageJsonFiles w) (projects cfg) \<lparr>localLinks = Map.empty\<rparr> (entries w)
           = (Inr rl, entries (snd (linkProjects cfg w)))" and
    sv: "saved (snd (linkProjects cfg w)) = (rushLinkJsonFilename cfg, rl) # saved w" by auto
  then show "\<exists>rushLinkJson.
         linkAll cfg (packageJsonFiles w) (projects cfg) \<lparr>localLinks = Map.empty\<rparr> (entries w) =
           (Inr rushLinkJson, entries (snd (linkProjects cfg w))) \<and>
         saved (snd (linkProjects cfg w)) = (rushLinkJsonFilename cfg, rushLinkJson) # saved w"
    by blast
  show "\<forall>p \<in> set (projects cfg). \<exists>j s j' s'.
         linkProject cfg (packageJsonFiles w) p j s = (Inr j', s')"
    using linkAll_each_linked [OF la] by blast
next
  fix e assume f: "fst (linkProjects cfg w) = Inl e"
  then have fa: "fst (linkAll cfg (packageJsonFiles w) (projects cfg) \<lparr>localLinks = Map.empty\<rparr>
                   (entries w)) = Inl e"
    by (auto simp: linkProjects_def split: prod.splits sum.splits)
  from linkProjects_Inl [OF fa] show "saved (snd (linkProjects cfg w)) = saved w" by simp
  have en: "entries (snd (linkProjects cfg w)) =
        snd (linkAll cfg (packageJsonFiles w) (projects cfg) \<lparr>localLinks = Map.empty\<rparr> (entries w))"
    using fa by (auto simp: linkProjects_def split: prod.splits sum.splits)
  from linkAll_Inl_split [OF fa] show "\<exists>pre p post j1 s1.
         projects cfg = pre @ p # post \<and>
         linkAll cfg (packageJsonFiles w) pre \<lparr>localLinks = Map.empty\<rparr> (entries w) = (Inr j1, s1) \<and>
         linkProject cfg (packageJsonFiles w) p j1 s1 = (Inl e, entries (snd (linkProjects cfg w)))"
    unfolding en by blast
next
  fix pre p post j1 s1 e s2
  assume a: "projects cfg = pre @ p # post \<and>
      linkAll cfg (packageJsonFiles w) pre \<lparr>localLinks = Map.empty\<rparr> (entries w) = (Inr j1, s1) \<and>
      linkProject cfg (packageJsonFiles w) p j1 s1 = (Inl e, s2)"
  then have lp: "linkProject cfg (packageJsonFiles w) p j1 s1 = (Inl e, s2)" by simp
  from a have "linkAll cfg (packageJsonFiles w) (projects cfg) \<lparr>localLinks = Map.empty\<rparr> (entries w)
      = (Inl e, s2)"
    by (simp add: linkAll_append)
  then show "linkProjects cfg w = (Inl e, w\<lparr>entries := s2\<rparr>)"
    by (simp add: linkProjects_def)
  have "grows (underNodeModules (projectFolder p)) (linkProject cfg (packageJsonFiles w) p j1)"
    by (rule grows_linkProject)
  from growsD [OF this lp] show "later s1 s2"
    and out: "\<And>q. \<not> underNodeModules (projectFolder p) q \<Longrightarrow> s2 q = s1 q"
    by (simp_all add: agreeOutside_def)
  assume "\<forall>l. e \<noteq> FilesystemConflictError l"
  with linkProject_Inl_disk [OF lp] show "s2 = s1" by simp
qed

theorem manifest_saved_once_after_all_projects_witness:
  "fst (linkProjects exampleConfiguration exampleWorld) = Inr () \<and>
   (\<exists>rushLinkJson.
      saved (snd (linkProjects exampleConfiguration exampleWorld)) =
        (''/temp/rush-link.json'', rushLinkJson) # saved exampleWorld) \<and>
   fst (linkProjects exampleConfiguration brokenWorld)
     = Inl (CannotFindInstalledDependency ''react''
              ''/temp/node_modules/.local/%2Ftemp%2Fprojects%2Fb.tgz/node_modules'') \<and>
   saved (snd (linkProjects exampleConfiguration brokenWorld)) = saved brokenWorld \<and>
   entries brokenWorld ''/tools/a/node_modules/b'' = None \<and>
   entries (snd (linkProjects exampleConfiguration brokenWorld)) ''/tools/a/node_modules/b''
     = Some (SymlinkNode ''/tools/b'') \<and>
   entries (snd (linkProjects exampleConfiguration brokenWorld)) =
     snd (linkAll exampleConfiguration (packageJsonFiles brokenWorld) [projectA]
            \<lparr>localLinks = Map.empty\<rparr> (entries brokenWorld))"
proof -
  let ?pli = "''/temp/node_modules/.local/%2Ftemp%2Fprojects%2Fb.tgz/node_modules''"
  let ?e = "CannotFindInstalledDependency ''react'' ?pli"
  note t = manifest_saved_once_after_all_projects
  have f: "rushLinkJsonFilename exampleConfiguration = ''/temp/rush-link.json''"
    by (simp add: exampleConfiguration_def)
  have 1: "\<exists>rushLinkJson.
      saved (snd (linkProjects exampleConfiguration exampleWorld)) =
        (''/temp/rush-link.json'', rushLinkJson) # saved exampleWorld"
    using t [of exampleConfiguration exampleWorld] example_run_ok unfolding f by blast
  have s: "fst (linkProjects exampleConfiguration brokenWorld) = Inl ?e" by code_simp
  have 2: "saved (snd (linkProjects exampleConfiguration brokenWorld)) = saved brokenWorld"
    using t [of exampleConfiguration brokenWorld] s by blast
  have "case fst (linkAll exampleConfiguration (packageJsonFiles brokenWorld) [projectA]
            \<lparr>localLinks = Map.empty\<rparr> (entries brokenWorld)) of Inl _ \<Rightarrow> False | Inr _ \<Rightarrow> True"
    by code_simp
  from succeeded_cases [OF this] obtain j1 s1 where
    a: "linkAll exampleConfiguration (packageJsonFiles brokenWorld) [projectA]
            \<lparr>localLinks = Map.empty\<rparr> (entries brokenWorld) = (Inr j1, s1)" by blast
  have pr: "projects exampleConfiguration = [projectA] @ projectB # []"
    by (simp add: exampleConfiguration_def)
  have "fst (linkAll exampleConfiguration (packageJsonFiles brokenWorld)
               (projects exampleConfiguration) \<lparr>localLinks = Map.empty\<rparr> (entries brokenWorld))
          = Inl ?e"
    using s by (auto simp: linkProjects_def split: prod.splits sum.splits)
  moreover have "linkAll exampleConfiguration (packageJsonFiles brokenWorld)
               ([projectA] @ projectB # []) \<lparr>localLinks = Map.empty\<rparr> (entries brokenWorld)
      = linkAll exampleConfiguration (packageJsonFiles brokenWorld) [projectB] j1 s1"
    by (simp only: linkAll_append a prod.case sum.case)
  ultimately have "fst (linkAll exampleConfiguration (packageJsonFiles brokenWorld) [projectB] j1 s1)
      = Inl ?e"
    unfolding pr by simp
  then have "fst (linkProject exampleConfiguration (packageJsonFiles brokenWorld) projectB j1 s1)
      = Inl ?e"
    by (auto split: prod.splits sum.splits)
  then obtain s2 where
    b: "linkProject exampleConfiguration (packageJsonFiles brokenWorld) projectB j1 s1 = (Inl ?e, s2)"
    by (cases "linkProject exampleConfiguration (packageJsonFiles brokenWorld) projectB j1 s1") auto
  from t [of exampleConfiguration brokenWorld] pr a b
  have r: "linkProjects exampleConfiguration brokenWorld = (Inl ?e, brokenWorld\<lparr>entries := s2\<rparr>)"
    and e: "s2 = s1" by blast+
  from r e a have 3: "entries (snd (linkProjects exampleConfiguration brokenWorld)) =
     snd (linkAll exampleConfiguration (packageJsonFiles brokenWorld) [projectA]
            \<lparr>localLinks = Map.empty\<rparr> (entries brokenWorld))" by simp
  have 4: "snd (linkAll exampleConfiguration (packageJsonFiles brokenWorld) [projectA]
            \<lparr>localLinks = Map.empty\<rparr> (entries brokenWorld)) ''/tools/a/node_modules/b''
     = Some (SymlinkNode ''/tools/b'')" by code_simp
  have 5: "entries brokenWorld ''/tools/a/node_modules/b'' = None" by code_simp
  from example_run_ok 1 s 2 3 4 5 show ?thesis by simp
qed

section \<open>Linking again\<close>

text \<open>
  Claim C6 fails as stated: the backend's entry for \<^verbatim>\<open>lodash\<close> leads to the installed
  package by way of \<^verbatim>\<open>/tools/a/node_modules/lodash\<close>, a link.  The first run finds the
  package, resolves, and makes \<^verbatim>\<open>/tools/a/node_modules/lodash\<close> a link to the backend's
  entry; the two links now lead to each other, and the second run, on what the first
  left, is rejected because the install location of \<^verbatim>\<open>lodash\<close> does not exist.
\<close>

theorem second_run_differs_when_backend_link_leads_into_project:
  "readlink (entries loopWorld)
     ''/temp/node_modules/.local/%2Ftemp%2Fprojects%2Fa.tgz/node_modules/lodash''
     = Some ''/tools/a/node_modules/lodash'' \<and>
   readlink (entries loopWorld) ''/tools/a/node_modules/lodash'' = Some ''/store/lodash'' \<and>
   fst (linkProjects loopConfiguration loopWorld) = Inr () \<and>
   readlink (entries (snd (linkProjects loopConfiguration loopWorld)))
     ''/tools/a/node_modules/lodash''
     = Some ''/temp/node_modules/.local/%2Ftemp%2Fprojects%2Fa.tgz/node_modules/lodash'' \<and>
   fst (linkProjects loopConfiguration (snd (linkProjects loopConfiguration loopWorld)))
     = Inl (CannotFindInstalledDependency ''lodash''
              ''/temp/node_modules/.local/%2Ftemp%2Fprojects%2Fa.tgz/node_modules'')"
  by code_simp

lemma clearOfProjects_clearAt:
  assumes "clearOfProjects cfg w"
  shows "clearAt (inProjectNodeModules cfg) (readPath cfg (packageJsonFiles w)) (entries w)"
  unfolding clearAt_def
proof (intro allI impI)
  fix r assume "readPath cfg (packageJsonFiles w) r"
  then consider "r = path_join [commonTempFolder cfg, ''node_modules'', ''.bin'']"
    | p pj d where "p \<in> set (projects cfg)"
        "packageJsonFiles w (tempPackageJsonFilename cfg p) = Some pj"
        "d \<in> set (dkeys pj)" "r = path_join [pathToLocalInstallation cfg p, d]"
    unfolding readPath_def by blast
  then show "staysOutside maxSymlinks (inProjectNodeModules cfg) (entries w) r"
  proof cases
    case 1
    with assms show ?thesis by (simp add: clearOfProjects_def del: path_join.simps)
  next
    case 2
    from assms 2(1) have "case packageJsonFiles w (tempPackageJsonFilename cfg p) of
          None \<Rightarrow> True
        | Some pj \<Rightarrow>
            \<forall>d \<in> set (Object_keys (dependencies pj)).
              staysOutside maxSymlinks (inProjectNodeModules cfg) (entries w)
                (path_join [pathToLocalInstallation cfg p, d])"
      unfolding clearOfProjects_def by blast
    with 2(2,3,4) show ?thesis by (simp add: dkeys_def del: path_join.simps)
  qed
qed

text \<open>
  Claim C6, amended.  Let the shared \<^verbatim>\<open>.bin\<close> folder and the backend's entry for every
  ordinary dependency of every project neither lie in the \<^verbatim>\<open>node_modules\<close> folder of a
  project nor lead there along their links.  Then running again on what the first run
  left gives the same result, leaves the same entries on the disk and the same
  contents in every saved file, the link manifest among them.
\<close>

theorem linking_again_changes_nothing:
  assumes "clearOfProjects cfg w"
  shows "fst (linkProjects cfg (snd (linkProjects cfg w))) = fst (linkProjects cfg w) \<and>
         entries (snd (linkProjects cfg (snd (linkProjects cfg w)))) =
           entries (snd (linkProjects cfg w)) \<and>
         savedFile (snd (linkProjects cfg (snd (linkProjects cfg w)))) =
           savedFile (snd (linkProjects cfg w)) \<and>
         packageJsonFiles (snd (linkProjects cfg (snd (linkProjects cfg w)))) =
           packageJsonFiles (snd (linkProjects cfg w))"
proof -
  let ?W = "inProjectNodeModules cfg"
  let ?R = "readPath cfg (packageJsonFiles w)"
  let ?T = "linkAll cfg (packageJsonFiles w) (projects cfg) \<lparr>localLinks = Map.empty\<rparr>"
  obtain r f where t: "?T (entries w) = (r, f)" by (cases "?T (entries w)")
  have en: "entries (snd (linkProjects cfg w)) = f"
    using t by (simp add: linkProjects_def JsonFile_save_def split: sum.splits)
  have pf: "packageJsonFiles (snd (linkProjects cfg w)) = packageJsonFiles w"
    using t by (simp add: linkProjects_def JsonFile_save_def split: sum.splits)
  have w: "?W q" if "p \<in> set (projects cfg)" "underNodeModules (projectFolder p) q" for p q
    using that unfolding inProjectNodeModules_def by blast
  have rd: "?R (path_join [pathToLocalInstallation cfg p, d])"
    if "p \<in> set (projects cfg)" "packageJsonFiles w (tempPackageJsonFilename cfg p) = Some pj"
      "d \<in> set (dkeys pj)" for p pj d
    using that unfolding readPath_def by blast
  have rb: "?R (path_join [commonTempFolder cfg, ''node_modules'', ''.bin''])"
    unfolding readPath_def by blast
  have g: "grows ?W ?T"
  proof (rule grows_linkAll)
    show "?W q" if "p \<in> set (projects cfg)" "underNodeModules (projectFolder p) q" for p q
      using that by (rule w)
  qed
  have rp: "replays ?W ?R (\<lambda>r. \<not> isl r) ?T"
  proof (rule replays_linkAll [where W = ?W and R = ?R])
    show "?W q" if "p \<in> set (projects cfg)" "underNodeModules (projectFolder p) q" for p q
      using that by (rule w)
    show "?R (path_join [pathToLocalInstallation cfg p, d])"
      if "p \<in> set (projects cfg)" "packageJsonFiles w (tempPackageJsonFilename cfg p) = Some pj"
        "d \<in> set (dkeys pj)" for p pj d
      using that by (rule rd)
    show "?R (path_join [commonTempFolder cfg, ''node_modules'', ''.bin''])" by (rule rb)
  qed
  from replays_fixpoint [OF rp g t clearOfProjects_clearAt [OF assms]] have t2: "?T f = (r, f)" .
  show ?thesis
  proof (cases r)
    case (Inl e)
    with t have w1: "linkProjects cfg w = (Inl e, w\<lparr>entries := f\<rparr>)"
      by (simp add: linkProjects_def)
    with t2 Inl have "linkProjects cfg (snd (linkProjects cfg w)) = (Inl e, w\<lparr>entries := f\<rparr>)"
      by (simp add: linkProjects_def)
    with w1 show ?thesis by simp
  next
    case (Inr j)
    with t have w1: "linkProjects cfg w =
        (Inr (), w\<lparr>entries := f, saved := (rushLinkJsonFilename cfg, j) # saved w\<rparr>)"
      by (simp add: linkProjects_def JsonFile_save_def)
    with t2 Inr have w2: "linkProjects cfg (snd (linkProjects cfg w)) =
        (Inr (), w\<lparr>entries := f,
                   saved := (rushLinkJsonFilename cfg, j) # (rushLinkJsonFilename cfg, j) # saved w\<rparr>)"
      by (simp add: linkProjects_def JsonFile_save_def)
    have s1: "saved (snd (linkProjects cfg w)) = (rushLinkJsonFilename cfg, j) # saved w"
      by (simp add: w1)
    have s2: "saved (snd (linkProjects cfg (snd (linkProjects cfg w)))) =
        (rushLinkJsonFilename cfg, j) # (rushLinkJsonFilename cfg, j) # saved w"
      by (simp add: w2)
    have "savedFile (snd (linkProjects cfg (snd (linkProjects cfg w)))) =
           savedFile (snd (linkProjects cfg w))"
      by (rule ext) (simp add: savedFile_def s1 s2)
    moreover have "fst (linkProjects cfg (snd (linkProjects cfg w))) = fst (linkProjects cfg w)"
      "entries (snd (linkProjects cfg (snd (linkProjects cfg w)))) =
         entries (snd (linkProjects cfg w))"
      "packageJsonFiles (snd (linkProjects cfg (snd (linkProjects cfg w)))) =
         packageJsonFiles (snd (linkProjects cfg w))"
      by (simp_all add: w2) (simp_all add: w1)
    ultimately show ?thesis by simp
  qed
qed

theorem linking_again_changes_nothing_witness:
  "clearOfProjects exampleConfiguration exampleWorld \<and>
   fst (linkProjects exampleConfiguration exampleWorld) = Inr () \<and>
   entries (snd (linkProjects exampleConfiguration exampleWorld)) ''/tools/a/node_modules/lodash''
     = Some (SymlinkNode
               ''/temp/node_modules/.local/%2Ftemp%2Fprojects%2Fa.tgz/node_modules/lodash'') \<and>
   fst (linkProjects exampleConfiguration (snd (linkProjects exampleConfiguration exampleWorld))) = Inr () \<and>
   entries (snd (linkProjects exampleConfiguration (snd (linkProjects exampleConfiguration exampleWorld)))) =
     entries (snd (linkProjects exampleConfiguration exampleWorld)) \<and>
   savedFile (snd (linkProjects exampleConfiguration (snd (linkProjects exampleConfiguration exampleWorld)))) =
     savedFile (snd (linkProjects exampleConfiguration exampleWorld))"
proof -
  have c: "clearOfProjects exampleConfiguration exampleWorld" by code_simp
  have l: "entries (snd (linkProjects exampleConfiguration exampleWorld))
      ''/tools/a/node_modules/lodash''
     = Some (SymlinkNode
               ''/temp/node_modules/.local/%2Ftemp%2Fprojects%2Fa.tgz/node_modules/lodash'')"
    by code_simp
  from linking_again_changes_nothing [OF c] c l example_run_ok show ?thesis by simp
qed

end
